theory Spec2Isabelle
  imports Main
begin

section \<open>Strings as the wrapper sees them\<close>

text \<open>
  The wrapper is a Node.js program. Its strings are modelled as \<^typ>\<open>string\<close>
  (lists of characters); a request body or a file content is a list of characters as
  well, one character per byte.
\<close>

type_synonym bytes = string

definition startsWith :: "string \<Rightarrow> string \<Rightarrow> bool" where
  \<comment> \<open>\<^verbatim>\<open>s.startsWith(pre)\<close>\<close>
  "startsWith s pre = (take (length pre) s = pre)"

definition backslash :: char where
  "backslash = CHR 0x5C"

definition isAsciiLetter :: "char \<Rightarrow> bool" where
  \<comment> \<open>the character class \<^verbatim>\<open>[A-Za-z]\<close>\<close>
  "isAsciiLetter c =
     (let n = (of_char c :: nat) in (65 \<le> n \<and> n \<le> 90) \<or> (97 \<le> n \<and> n \<le> 122))"

definition isAsciiDigit :: "char \<Rightarrow> bool" where
  \<comment> \<open>the character class \<^verbatim>\<open>[0-9]\<close>\<close>
  "isAsciiDigit c = (let n = (of_char c :: nat) in 48 \<le> n \<and> n \<le> 57)"

fun splitOn :: "char \<Rightarrow> string \<Rightarrow> string list" where
  \<comment> \<open>\<^verbatim>\<open>s.split(sep)\<close> for a one-character separator: never the empty list\<close>
  "splitOn sep [] = [[]]"
| "splitOn sep (c # cs) =
     (if c = sep then [] # splitOn sep cs
      else (c # hd (splitOn sep cs)) # tl (splitOn sep cs))"

section \<open>The traversal-safety predicate\<close>

text \<open>
  \<^verbatim>\<open>
  function looksSafeTarPath(p) {
    if (!p) return false;
    // tar paths always use / separators
    if (p.startsWith("/") || p.startsWith("\\")) return false;
    // windows drive letters
    if (/^[A-Za-z]:[\\/]/.test(p)) return false;
    // path traversal
    if (p.split("/").includes("..")) return false;
    return true;
  }
  \<close>
\<close>

definition driveLetterRegex :: "string \<Rightarrow> bool" where
  \<comment> \<open>\<^verbatim>\<open>/^[A-Za-z]:[\\/]/.test(p)\<close>\<close>
  "driveLetterRegex p =
     (case p of
        a # b # c # _ \<Rightarrow> isAsciiLetter a \<and> b = CHR '':'' \<and> (c = backslash \<or> c = CHR ''/'')
      | _ \<Rightarrow> False)"

definition looksSafeTarPath :: "string \<Rightarrow> bool" where
  "looksSafeTarPath p =
     (if p = [] then False
      else if startsWith p ''/'' \<or> startsWith p [backslash] then False
      else if driveLetterRegex p then False
      else if ''..'' \<in> set (splitOn CHR ''/'' p) then False
      else True)"

subsection \<open>The three kinds of unsafe path, in the words of the specification\<close>

definition isAbsolutePath :: "string \<Rightarrow> bool" where
  \<comment> \<open>the path starts with a separator\<close>
  "isAbsolutePath p = (\<exists>rest. p = CHR ''/'' # rest \<or> p = backslash # rest)"

definition hasDrivePrefix :: "string \<Rightarrow> bool" where
  \<comment> \<open>a letter, a colon and a separator open the path\<close>
  "hasDrivePrefix p =
     (\<exists>l s rest. p = l # CHR '':'' # s # rest \<and> isAsciiLetter l \<and> (s = backslash \<or> s = CHR ''/''))"

definition isSegmentOf :: "string \<Rightarrow> string \<Rightarrow> bool" where
  \<comment> \<open>\<open>seg\<close> stands in \<open>p\<close> between two \<open>/\<close> separators, or between one and an end of \<open>p\<close>\<close>
  "isSegmentOf seg p =
     (CHR ''/'' \<notin> set seg \<and>
      (\<exists>before after. p = before @ seg @ after \<and>
         (before = [] \<or> last before = CHR ''/'') \<and>
         (after = [] \<or> hd after = CHR ''/'')))"

definition hasParentSegment :: "string \<Rightarrow> bool" where
  "hasParentSegment p = isSegmentOf ''..'' p"

section \<open>Numbers and strings of JavaScript\<close>

definition digitChar :: "nat \<Rightarrow> char" where
  "digitChar d =
     (if d = 0 then CHR ''0'' else if d = 1 then CHR ''1'' else if d = 2 then CHR ''2''
      else if d = 3 then CHR ''3'' else if d = 4 then CHR ''4'' else if d = 5 then CHR ''5''
      else if d = 6 then CHR ''6'' else if d = 7 then CHR ''7'' else if d = 8 then CHR ''8''
      else CHR ''9'')"

function showNat :: "nat \<Rightarrow> string" where
  \<comment> \<open>\<^verbatim>\<open>String(n)\<close> for a non-negative integer\<close>
  "showNat n = (if n < 10 then [digitChar n] else showNat (n div 10) @ [digitChar (n mod 10)])"
  by pat_completeness auto
termination
  by (relation "measure id") auto

declare showNat.simps [simp del]

definition showInt :: "int \<Rightarrow> string" where
  \<comment> \<open>\<^verbatim>\<open>String(n)\<close> for an integer\<close>
  "showInt i = (if i < 0 then CHR ''-'' # showNat (nat (- i)) else showNat (nat i))"

definition isJsWhitespace :: "char \<Rightarrow> bool" where
  \<comment> \<open>the white space and line terminators that \<^verbatim>\<open>trim()\<close> removes, among the
      code units below 256: TAB, LF, VT, FF, CR, SPACE, NBSP\<close>
  "isJsWhitespace c = ((of_char c :: nat) \<in> {9, 10, 11, 12, 13, 32, 160})"

definition trim :: "string \<Rightarrow> string" where
  \<comment> \<open>\<^verbatim>\<open>s.trim()\<close>\<close>
  "trim s = rev (dropWhile isJsWhitespace (rev (dropWhile isJsWhitespace s)))"

definition digitVal :: "char \<Rightarrow> int" where
  "digitVal c = int (of_char c) - 48"

definition parseInt10 :: "string \<Rightarrow> int option" where
  \<comment> \<open>\<^verbatim>\<open>Number.parseInt(s, 10)\<close>: leading white space, an optional sign, then the
      longest run of decimal digits; \<open>None\<close> is NaN (no digit there)\<close>
  "parseInt10 s =
     (let t = dropWhile isJsWhitespace s;
          neg = (t \<noteq> [] \<and> hd t = CHR ''-'');
          u = (if t \<noteq> [] \<and> (hd t = CHR ''-'' \<or> hd t = CHR ''+'') then tl t else t);
          ds = takeWhile isAsciiDigit u;
          v = foldl (\<lambda>acc c. 10 * acc + digitVal c) 0 ds
      in if ds = [] then None else Some (if neg then - v else v))"

section \<open>Configuration of the wrapper and its mutable state\<close>

text \<open>
  The constants the wrapper computes once at boot from \<^verbatim>\<open>process.env\<close> and
  \<^verbatim>\<open>os\<close>. \<open>OPENCLAW_CONFIG_PATH\<close> is the trimmed value of the variable when it is set
  and not empty. \<open>tmpdir\<close> is \<^verbatim>\<open>os.tmpdir()\<close> and \<open>processCwd\<close> is
  \<^verbatim>\<open>process.cwd()\<close>. The state directory and the temporary directory are taken as
  normalised paths, so that \<^verbatim>\<open>path.join(a, b)\<close> on them is \<open>a/b\<close>; \<open>pathResolve\<close>
  below is \<^verbatim>\<open>path.resolve\<close> on any path.
\<close>

record env =
  OPENCLAW_NODE :: string
  OPENCLAW_ENTRY :: string
  STATE_DIR :: string
  WORKSPACE_DIR :: string
  OPENCLAW_CONFIG_PATH :: "string option"
  INTERNAL_GATEWAY_PORT :: nat
  OPENCLAW_GATEWAY_TOKEN :: string
  tmpdir :: string
  processCwd :: string

definition pathJoin :: "string \<Rightarrow> string \<Rightarrow> string" where
  "pathJoin a b = a @ ''/'' @ b"

definition clawArgs :: "env \<Rightarrow> string list \<Rightarrow> string list" where
  \<comment> \<open>\<^verbatim>\<open>function clawArgs(args) { return [OPENCLAW_ENTRY, ...args]; }\<close>\<close>
  "clawArgs e args = OPENCLAW_ENTRY e # args"

text \<open>
  The state the wrapper mutates: the files on disk (regular files only, path to
  content), the module-level variables \<^verbatim>\<open>gatewayProc\<close>, \<^verbatim>\<open>gatewayStarting\<close>,
  \<^verbatim>\<open>lastGatewayError\<close>, \<^verbatim>\<open>lastGatewayExit\<close>, \<^verbatim>\<open>lastDoctorAt\<close>, and what the
  wrapper did to the operating system: every \<^verbatim>\<open>childProcess.spawn\<close> (command and
  argument vector, oldest first) and every \<^verbatim>\<open>kill("SIGTERM")\<close>. A child handle is the
  position of its spawn in that log. The callers suspended on \<^verbatim>\<open>await gatewayStarting\<close>
  and the results callers of \<^verbatim>\<open>ensureGatewayRunning\<close> have received are kept too.
  Directories, file modes and errors of the file system are left out, and so is
  \<^verbatim>\<open>lastDoctorOutput\<close>, which only holds text for the diagnostics page.
\<close>

datatype attempt =
    AwaitingReady int
  | AwaitingDoctor string
  | Rejected string

datatype ensure_result =
    ReturnedOk
  | ReturnedNotOk string
  | Threw string

record world =
  files :: "string \<rightharpoonup> bytes"
  gatewayProc :: "nat option"
  gatewayStarting :: "attempt option"
  lastGatewayError :: "string option"
  lastGatewayExit :: "(int option \<times> string option) option"
  lastDoctorAt :: "int option"
  spawned :: "(string \<times> string list) list"
  killed :: "nat list"
  waiters :: "nat list"
  results :: "nat \<rightharpoonup> ensure_result"

definition existsSync :: "world \<Rightarrow> string \<Rightarrow> bool" where
  "existsSync w p = (files w p \<noteq> None)"

definition resolveConfigCandidates :: "env \<Rightarrow> string list" where
  "resolveConfigCandidates e =
     (case OPENCLAW_CONFIG_PATH e of
        Some explicit \<Rightarrow> [explicit]
      | None \<Rightarrow> [pathJoin (STATE_DIR e) ''openclaw.json''])"

definition configPath :: "env \<Rightarrow> world \<Rightarrow> string" where
  \<comment> \<open>the first candidate that exists, else the first candidate\<close>
  "configPath e w =
     (case filter (existsSync w) (resolveConfigCandidates e) of
        c # _ \<Rightarrow> c
      | [] \<Rightarrow> (case resolveConfigCandidates e of
                 c # _ \<Rightarrow> c
               | [] \<Rightarrow> pathJoin (STATE_DIR e) ''openclaw.json''))"

definition isConfigured :: "env \<Rightarrow> world \<Rightarrow> bool" where
  \<comment> \<open>\<^verbatim>\<open>resolveConfigCandidates().some((candidate) => fs.existsSync(candidate))\<close>\<close>
  "isConfigured e w = list_ex (existsSync w) (resolveConfigCandidates e)"

section \<open>Running a command: \<open>runCmd\<close>\<close>

text \<open>
  \<^verbatim>\<open>
  function runCmd(cmd, args, opts = {}) {
    return new Promise((resolve) => {
      const proc = childProcess.spawn(cmd, args, { ... });
      let out = "";
      proc.stdout?.on("data", (d) => (out += d.toString("utf8")));
      proc.stderr?.on("data", (d) => (out += d.toString("utf8")));
      proc.on("error", (err) => {
        out += `\n[spawn error] ${String(err)}\n`;
        resolve({ code: 127, output: out });
      });
      proc.on("close", (code) => resolve({ code: code ?? 0, output: out }));
    });
  }
  \<close>
  \<^verbatim>\<open>childProcess.spawn\<close> is called inside the executor of the promise. Node checks
  its arguments before it starts anything: it throws at once when the command is
  empty or when the command or an argument holds a NUL character, and an exception in an
  executor rejects the promise. Otherwise it returns the handle of the child, and a
  child that cannot be started emits \<open>error\<close>. The child is the sequence of events its
  handle emits. The promise is pending until the first \<open>error\<close> or \<open>close\<close> event
  resolves it; a promise that is settled stays as it is, whatever is emitted later.
\<close>

datatype 'a promise =
    Pending
  | Resolved 'a
  | Rejects string

datatype proc_event =
    StdoutData string
  | StderrData string
  | ProcError string
  | ProcClose "int option"

record cmd_result =
  code :: int
  outputText :: string

fun runCmdFrom :: "string \<Rightarrow> proc_event list \<Rightarrow> cmd_result promise" where
  "runCmdFrom out [] = Pending"
| "runCmdFrom out (StdoutData d # evs) = runCmdFrom (out @ d) evs"
| "runCmdFrom out (StderrData d # evs) = runCmdFrom (out @ d) evs"
| "runCmdFrom out (ProcError err # evs) =
     Resolved \<lparr>code = 127, outputText = out @ [CHR 0x0A] @ ''[spawn error] '' @ err @ [CHR 0x0A]\<rparr>"
| "runCmdFrom out (ProcClose c # evs) =
     Resolved \<lparr>code = (case c of None \<Rightarrow> 0 | Some k \<Rightarrow> k), outputText = out\<rparr>"

definition NUL :: char where
  "NUL = CHR 0x00"

definition spawnThrows :: "string \<Rightarrow> string list \<Rightarrow> bool" where
  \<comment> \<open>the argument check of \<^verbatim>\<open>childProcess.spawn\<close>, from the documentation of Node
      (the library is not in the repository): error \<open>ERR_INVALID_ARG_VALUE\<close>\<close>
  "spawnThrows cmd args = (cmd = [] \<or> NUL \<in> set cmd \<or> list_ex (\<lambda>a. NUL \<in> set a) args)"

definition runCmd :: "string \<Rightarrow> string list \<Rightarrow> proc_event list \<Rightarrow> cmd_result promise" where
  \<comment> \<open>the state of the promise \<^verbatim>\<open>runCmd(cmd, args)\<close> returned, after the child, if one was
      spawned, emitted \<open>evs\<close>\<close>
  "runCmd cmd args evs =
     (if spawnThrows cmd args then Rejects ''ERR_INVALID_ARG_VALUE'' else runCmdFrom [] evs)"

fun isTerminal :: "proc_event \<Rightarrow> bool" where
  "isTerminal (ProcError _) = True"
| "isTerminal (ProcClose _) = True"
| "isTerminal _ = False"

fun dataOf :: "proc_event \<Rightarrow> string" where
  "dataOf (StdoutData d) = d"
| "dataOf (StderrData d) = d"
| "dataOf _ = []"

section \<open>The gateway supervisor\<close>

text \<open>
  The wrapper runs on one event loop: the code between two \<^verbatim>\<open>await\<close>s runs without
  interruption. Each function below is such a stretch of code, and \<open>step\<close> further
  down is what one event of the loop does to the state.
\<close>

subsection \<open>\<open>waitForGatewayReady\<close>\<close>

text \<open>
  \<^verbatim>\<open>
  async function waitForGatewayReady(opts = {}) {
    const timeoutMs = opts.timeoutMs ?? 20_000;
    const start = Date.now();
    while (Date.now() - start < timeoutMs) {
      try {
        const paths = ["/openclaw", "/"];
        for (const p of paths) {
          try {
            const res = await fetch(`${GATEWAY_TARGET}${p}`, { method: "GET" });
            if (res) return true;
          } catch { }
        }
      } catch { }
      await sleep(250);
    }
    return false;
  }
  \<close>
  One round of the loop is the clock read by the loop test and whether the fetch of
  \<open>/openclaw\<close> and the fetch of \<open>/\<close> produce a response. The result is \<open>None\<close> while
  the loop is still polling at the end of the rounds given.
\<close>

type_synonym probe_round = "int \<times> bool \<times> bool"

fun waitForGatewayReady :: "int \<Rightarrow> int \<Rightarrow> probe_round list \<Rightarrow> bool option" where
  "waitForGatewayReady timeoutMs start [] = None"
| "waitForGatewayReady timeoutMs start ((t, openclawAnswers, rootAnswers) # rounds) =
     (if t - start < timeoutMs
      then (if openclawAnswers \<or> rootAnswers then Some True
            else waitForGatewayReady timeoutMs start rounds)
      else Some False)"

subsection \<open>\<open>startGateway\<close>, \<open>runDoctorBestEffort\<close>\<close>

definition gatewayArgs :: "env \<Rightarrow> string list" where
  "gatewayArgs e =
     [''gateway'', ''run'', ''--bind'', ''loopback'', ''--port'', showNat (INTERNAL_GATEWAY_PORT e),
      ''--auth'', ''token'', ''--token'', OPENCLAW_GATEWAY_TOKEN e]"

definition startGateway :: "env \<Rightarrow> world \<Rightarrow> string + world" where
  \<comment> \<open>\<open>Inl\<close> is the message of the \<open>Error\<close> thrown; the two \<^verbatim>\<open>mkdirSync\<close> leave the
      files as they are\<close>
  "startGateway e w =
     (if gatewayProc w \<noteq> None then Inr w
      else if \<not> isConfigured e w then Inl ''Gateway cannot start: not configured''
      else Inr (w\<lparr>gatewayProc := Some (length (spawned w)),
                  spawned := spawned w @ [(OPENCLAW_NODE e, clawArgs e (gatewayArgs e))]\<rparr>))"

definition runDoctorBestEffort :: "env \<Rightarrow> int \<Rightarrow> world \<Rightarrow> bool \<times> world" where
  \<comment> \<open>up to its \<^verbatim>\<open>await runCmd(...)\<close>: \<open>True\<close> when the doctor command was spawned and is
      awaited, \<open>False\<close> when the five-minute limit made it return at once\<close>
  "runDoctorBestEffort e now w =
     (if (case lastDoctorAt w of Some t \<Rightarrow> t \<noteq> 0 \<and> now - t < 5 * 60 * 1000 | None \<Rightarrow> False)
      then (False, w)
      else (True, w\<lparr>lastDoctorAt := Some now,
                     spawned := spawned w @ [(OPENCLAW_NODE e, clawArgs e [''doctor''])]\<rparr>))"

subsection \<open>\<open>ensureGatewayRunning\<close>\<close>

text \<open>
  \<^verbatim>\<open>
  async function ensureGatewayRunning() {
    if (!isConfigured()) return { ok: false, reason: "not configured" };
    if (gatewayProc) return { ok: true };
    if (!gatewayStarting) {
      gatewayStarting = (async () => {
        try {
          lastGatewayError = null;
          await startGateway();
          const ready = await waitForGatewayReady({ timeoutMs: 20_000 });
          if (!ready) {
            throw new Error("Gateway did not become ready in time");
          }
        } catch (err) {
          const msg = `[gateway] start failure: ${String(err)}`;
          lastGatewayError = msg;
          await runDoctorBestEffort();
          throw err;
        }
      })().finally(() => {
        gatewayStarting = null;
      });
    }
    await gatewayStarting;
    return { ok: true };
  }
  \<close>
  \<open>gatewayStarting\<close> holds where the attempt in flight stands: polling for readiness
  since a start time, waiting for the doctor command before it rethrows an error,
  or rejected with its \<^verbatim>\<open>finally\<close> not yet run. \<open>startGateway\<close> has no \<^verbatim>\<open>await\<close>
  in its body, so the child is spawned and \<open>gatewayProc\<close> is set within the call of
  \<open>ensureGatewayRunning\<close> that creates the attempt. An \<open>Error\<close> is its message.
\<close>

definition attemptFailed :: "env \<Rightarrow> int \<Rightarrow> string \<Rightarrow> world \<Rightarrow> world" where
  \<comment> \<open>the \<^verbatim>\<open>catch\<close> block, up to the end of \<^verbatim>\<open>await runDoctorBestEffort()\<close> or its suspension\<close>
  "attemptFailed e now err w =
     (let w1 = w\<lparr>lastGatewayError := Some (''[gateway] start failure: Error: '' @ err)\<rparr>;
          d = runDoctorBestEffort e now w1
      in (snd d)\<lparr>gatewayStarting := Some (if fst d then AwaitingDoctor err else Rejected err)\<rparr>)"

definition settle :: "ensure_result \<Rightarrow> world \<Rightarrow> world" where
  \<comment> \<open>the attempt settles: \<^verbatim>\<open>finally\<close> clears \<open>gatewayStarting\<close>, and every caller
      suspended on it resumes with the same result\<close>
  "settle r w =
     w\<lparr>gatewayStarting := None, waiters := [],
       results := (\<lambda>c. if c \<in> set (waiters w) then Some r else results w c)\<rparr>"

definition drain :: "world \<Rightarrow> world" where
  \<comment> \<open>the microtasks at the end of an event: a rejected attempt settles\<close>
  "drain w =
     (case gatewayStarting w of
        Some (Rejected err) \<Rightarrow> settle (Threw err) w
      | _ \<Rightarrow> w)"

definition beginAttempt :: "env \<Rightarrow> int \<Rightarrow> world \<Rightarrow> world" where
  "beginAttempt e now w =
     (let w0 = w\<lparr>lastGatewayError := None\<rparr>
      in case startGateway e w0 of
           Inl err \<Rightarrow> attemptFailed e now err w0
         | Inr w1 \<Rightarrow> w1\<lparr>gatewayStarting := Some (AwaitingReady now)\<rparr>)"

definition ensureGatewayRunning :: "env \<Rightarrow> int \<Rightarrow> nat \<Rightarrow> world \<Rightarrow> world" where
  \<comment> \<open>caller \<open>c\<close> calls at clock \<open>now\<close>: it gets its result at once, or is suspended on
      the attempt in flight\<close>
  "ensureGatewayRunning e now c w =
     (if \<not> isConfigured e w then w\<lparr>results := (results w)(c \<mapsto> ReturnedNotOk ''not configured'')\<rparr>
      else if gatewayProc w \<noteq> None then w\<lparr>results := (results w)(c \<mapsto> ReturnedOk)\<rparr>
      else (let w1 = (if gatewayStarting w = None then beginAttempt e now w else w)
            in drain (w1\<lparr>waiters := waiters w1 @ [c]\<rparr>)))"

definition stopGateway :: "world \<Rightarrow> world" where
  \<comment> \<open>\<^verbatim>\<open>if (gatewayProc) { try { gatewayProc.kill("SIGTERM"); } catch {}
      await sleep(750); gatewayProc = null; }\<close>\<close>
  "stopGateway w =
     (case gatewayProc w of
        Some h \<Rightarrow> w\<lparr>killed := killed w @ [h], gatewayProc := None\<rparr>
      | None \<Rightarrow> w)"

definition restartGateway :: "env \<Rightarrow> int \<Rightarrow> nat \<Rightarrow> world \<Rightarrow> world" where
  "restartGateway e now c w = ensureGatewayRunning e now c (stopGateway w)"

subsection \<open>The events of the supervisor\<close>

datatype event =
    CallEnsure nat int
  | ProbeRun "probe_round list" int
  | DoctorClosed
  | ChildError string
  | ChildExit "int option" "string option"

text \<open>
  \<open>CallEnsure c now\<close>: caller \<open>c\<close> calls \<open>ensureGatewayRunning\<close>. \<open>ProbeRun rounds now\<close>:
  the polling of \<open>waitForGatewayReady\<close> went through \<open>rounds\<close>, and \<open>now\<close> is the clock
  \<open>runDoctorBestEffort\<close> reads if the polling failed. \<open>DoctorClosed\<close>: the doctor command
  awaited by the attempt has closed. \<open>ChildError\<close>, \<open>ChildExit\<close>: the handlers that
  \<open>startGateway\<close> registered on the child.
\<close>

fun step :: "env \<Rightarrow> world \<Rightarrow> event \<Rightarrow> world" where
  "step e w (CallEnsure c now) = ensureGatewayRunning e now c w"
| "step e w (ProbeRun rounds now) =
     (case gatewayStarting w of
        Some (AwaitingReady start) \<Rightarrow>
          (case waitForGatewayReady 20000 start rounds of
             None \<Rightarrow> w
           | Some True \<Rightarrow> settle ReturnedOk w
           | Some False \<Rightarrow> drain (attemptFailed e now ''Gateway did not become ready in time'' w))
      | _ \<Rightarrow> w)"
| "step e w DoctorClosed =
     (case gatewayStarting w of
        Some (AwaitingDoctor err) \<Rightarrow> settle (Threw err) w
      | _ \<Rightarrow> w)"
| "step e w (ChildError err) =
     w\<lparr>lastGatewayError := Some (''[gateway] spawn error: '' @ err), gatewayProc := None\<rparr>"
| "step e w (ChildExit c sig) =
     w\<lparr>lastGatewayExit := Some (c, sig), gatewayProc := None\<rparr>"

definition run :: "env \<Rightarrow> world \<Rightarrow> event list \<Rightarrow> world" where
  "run e w evs = foldl (step e) w evs"

definition gatewaySpawns :: "env \<Rightarrow> world \<Rightarrow> nat" where
  \<comment> \<open>how many times the gateway itself was spawned\<close>
  "gatewaySpawns e w = length (filter (\<lambda>s. s = (OPENCLAW_NODE e, clawArgs e (gatewayArgs e))) (spawned w))"

section \<open>The reverse proxy\<close>

datatype reply =
    Reply nat string
  | Redirect nat string

text \<open>
  \<^verbatim>\<open>
  app.use(async (req, res) => {
    if (!isConfigured() && !req.path.startsWith("/setup")) {
      return res.redirect("/setup");
    }
    if (isConfigured()) {
      try {
        await ensureGatewayRunning();
      } catch (err) {
        const hint = [ ... ].join("\n");
        return res.status(503).type("text/plain").send(hint);
      }
    }
    return proxy.web(req, res, { target: GATEWAY_TARGET });
  });

  server.on("upgrade", async (req, socket, head) => {
    if (!isConfigured()) { socket.destroy(); return; }
    try { await ensureGatewayRunning(); } catch { socket.destroy(); return; }
    proxy.ws(req, socket, head, { target: GATEWAY_TARGET });
  });
  \<close>
  This middleware is registered last: it sees the requests no route above it has
  answered. Those routes are \<open>/healthz\<close> and routes below \<open>/setup\<close>.
\<close>

datatype http_method = GET | POST

definition wrapperRoutes :: "(http_method \<times> string) list" where
  \<comment> \<open>every \<^verbatim>\<open>app.get\<close> and \<^verbatim>\<open>app.post\<close> of the source, in its order; Express compares
      the path of a request with them without regard to case or to a trailing slash,
      which is left out here\<close>
  "wrapperRoutes =
     [(GET, ''/setup/healthz''), (GET, ''/healthz''), (GET, ''/setup/app.js''), (GET, ''/setup''),
      (GET, ''/setup/api/status''), (GET, ''/setup/api/auth-groups''), (POST, ''/setup/api/run''),
      (GET, ''/setup/api/debug''), (POST, ''/setup/api/console/run''),
      (GET, ''/setup/api/config/raw''), (POST, ''/setup/api/config/raw''),
      (POST, ''/setup/api/pairing/approve''), (GET, ''/setup/api/devices/pending''),
      (POST, ''/setup/api/devices/approve''), (POST, ''/setup/api/reset''),
      (GET, ''/setup/export''), (POST, ''/setup/import'')]"

definition isWrapperRoute :: "http_method \<Rightarrow> string \<Rightarrow> bool" where
  "isWrapperRoute m path = ((m, path) \<in> set wrapperRoutes)"

datatype proxy_step =
    Answer reply
  | AwaitEnsureThenProxy
  | ProxyWeb

datatype upgrade_step =
    SocketDestroy
  | AwaitEnsureThenTunnel
  | ProxyWs

definition joinLines :: "string list \<Rightarrow> string" where
  \<comment> \<open>\<^verbatim>\<open>parts.join("\n")\<close>\<close>
  "joinLines parts = (case parts of [] \<Rightarrow> [] | p # ps \<Rightarrow> p @ concat (map (\<lambda>q. CHR 0x0A # q) ps))"

definition catchAll :: "env \<Rightarrow> world \<Rightarrow> string \<Rightarrow> proxy_step" where
  "catchAll e w path =
     (if \<not> isConfigured e w \<and> \<not> startsWith path ''/setup'' then Answer (Redirect 302 ''/setup'')
      else if isConfigured e w then AwaitEnsureThenProxy
      else ProxyWeb)"

definition catchAllAfterEnsure :: "world \<Rightarrow> ensure_result \<Rightarrow> proxy_step" where
  "catchAllAfterEnsure w r =
     (case r of
        Threw err \<Rightarrow>
          Answer (Reply 503 (joinLines
            [''Gateway not ready.'', ''Error: '' @ err,
             (case lastGatewayError w of Some m \<Rightarrow> CHR 0x0A # m | None \<Rightarrow> []),
             CHR 0x0A # ''Troubleshooting:'',
             ''- Visit /setup and check the Debug Console'',
             ''- Visit /setup/api/debug for config + gateway diagnostics'']))
      | _ \<Rightarrow> ProxyWeb)"

definition onUpgrade :: "env \<Rightarrow> world \<Rightarrow> upgrade_step" where
  "onUpgrade e w = (if \<not> isConfigured e w then SocketDestroy else AwaitEnsureThenTunnel)"

definition onUpgradeAfterEnsure :: "ensure_result \<Rightarrow> upgrade_step" where
  "onUpgradeAfterEnsure r = (case r of Threw err \<Rightarrow> SocketDestroy | _ \<Rightarrow> ProxyWs)"

section \<open>A deployment to evaluate on\<close>

text \<open>
  The deployment the README describes: a volume mounted at \<open>/data\<close>, the state
  directory \<open>/data/.openclaw\<close>, the workspace \<open>/data/workspace\<close>, no explicit
  configuration path, and the wrapper as it is right after boot.
\<close>

definition railwayEnv :: env where
  "railwayEnv =
     \<lparr>OPENCLAW_NODE = ''node'', OPENCLAW_ENTRY = ''/openclaw/dist/entry.js'',
      STATE_DIR = ''/data/.openclaw'', WORKSPACE_DIR = ''/data/workspace'',
      OPENCLAW_CONFIG_PATH = None, INTERNAL_GATEWAY_PORT = 18789,
      OPENCLAW_GATEWAY_TOKEN = ''secret'', tmpdir = ''/tmp'', processCwd = ''/app''\<rparr>"

definition bootWorld :: "(string \<rightharpoonup> bytes) \<Rightarrow> world" where
  "bootWorld fs =
     \<lparr>files = fs, gatewayProc = None, gatewayStarting = None, lastGatewayError = None,
      lastGatewayExit = None, lastDoctorAt = None, spawned = [], killed = [], waiters = [],
      results = Map.empty\<rparr>"

definition configuredFiles :: "string \<rightharpoonup> bytes" where
  "configuredFiles = [''/data/.openclaw/openclaw.json'' \<mapsto> ''{}'']"

section \<open>The administrative handlers\<close>

text \<open>
  What a handler has done when it returns or suspends for the last time: it has sent
  a reply; or it has called \<^verbatim>\<open>res.send\<close> with the reply given after \<^verbatim>\<open>req.destroy()\<close>
  had destroyed the connection of the request, so that nothing reaches the client; or
  it awaits \<open>restartGateway()\<close> and will send the reply given once that resolves
  (status 500 with the error if it throws); or it is still waiting for its input. The
  string of a reply is its text, or the \<open>error\<close>, \<open>output\<close> or \<open>path\<close> field of its
  JSON body.
\<close>

datatype handler_end =
    Replied reply
  | SentAfterDestroy reply
  | RestartThenReply reply
  | NoReplyYet

subsection \<open>Writing the configuration file: \<open>POST /setup/api/config/raw\<close>\<close>

text \<open>
  \<^verbatim>\<open>
  const content = String((req.body && req.body.content) || "");
  if (content.length > 500_000) {
    return res.status(413).json({ ok: false, error: "Config too large" });
  }
  fs.mkdirSync(STATE_DIR, { recursive: true });
  const p = configPath();
  // Backup
  if (fs.existsSync(p)) {
    const backupPath = `${p}.bak-${new Date().toISOString().replace(/[:.]/g, "-")}`;
    fs.copyFileSync(p, backupPath);
  }
  fs.writeFileSync(p, content, { encoding: "utf8", mode: 0o600 });
  // Apply immediately.
  if (isConfigured()) {
    await restartGateway();
  }
  res.json({ ok: true, path: p });
  \<close>
  \<open>stamp\<close> is the value of \<^verbatim>\<open>new Date().toISOString()\<close> when the handler runs.
\<close>

definition sanitizeTimestamp :: "string \<Rightarrow> string" where
  \<comment> \<open>\<^verbatim>\<open>.replace(/[:.]/g, "-")\<close>\<close>
  "sanitizeTimestamp stamp = map (\<lambda>c. if c = CHR '':'' \<or> c = CHR ''.'' then CHR ''-'' else c) stamp"

definition backupPath :: "string \<Rightarrow> string \<Rightarrow> string" where
  "backupPath p stamp = p @ ''.bak-'' @ sanitizeTimestamp stamp"

definition postConfigRaw :: "env \<Rightarrow> string \<Rightarrow> string \<Rightarrow> world \<Rightarrow> handler_end \<times> world" where
  "postConfigRaw e stamp content w =
     (if length content > 500000 then (Replied (Reply 413 ''Config too large''), w)
      else
        (let p = configPath e w;
             w1 = (case files w p of
                     Some old \<Rightarrow> w\<lparr>files := (files w)(backupPath p stamp \<mapsto> old)\<rparr>
                   | None \<Rightarrow> w);
             w2 = w1\<lparr>files := (files w1)(p \<mapsto> content)\<rparr>
         in if isConfigured e w2 then (RestartThenReply (Reply 200 p), w2)
            else (Replied (Reply 200 p), w2)))"

text \<open>
  The shape of \<^verbatim>\<open>toISOString()\<close> for the years 0 to 9999:
  \<open>YYYY-MM-DDTHH:mm:ss.sssZ\<close>. In a shape, \<open>d\<close> stands for one decimal digit and every
  other character for itself.
\<close>

fun matchesShape :: "string \<Rightarrow> string \<Rightarrow> bool" where
  "matchesShape [] [] = True"
| "matchesShape (p # ps) (c # cs) =
     ((if p = CHR ''d'' then isAsciiDigit c else c = p) \<and> matchesShape ps cs)"
| "matchesShape _ _ = False"

definition isIsoTimestamp :: "string \<Rightarrow> bool" where
  "isIsoTimestamp s = matchesShape ''dddd-dd-ddTdd:dd:dd.dddZ'' s"

subsection \<open>Reading an upload: \<open>readBodyBuffer\<close>\<close>

text \<open>
  \<^verbatim>\<open>
  async function readBodyBuffer(req, maxBytes) {
    return new Promise((resolve, reject) => {
      const chunks = [];
      let total = 0;
      req.on("data", (chunk) => {
        total += chunk.length;
        if (total > maxBytes) {
          reject(new Error("payload too large"));
          req.destroy();
          return;
        }
        chunks.push(chunk);
      });
      req.on("end", () => resolve(Buffer.concat(chunks)));
      req.on("error", reject);
    });
  }
  \<close>
  The request is the sequence of events its stream emits. The result comes with the
  events that were not read when the promise settled. \<^verbatim>\<open>req.destroy()\<close> destroys the
  socket of the request, which is also the socket of the response: \<open>BodyTooLarge\<close> is
  the rejection with \<open>payload too large\<close> on a request that has been destroyed.
\<close>

datatype req_event =
    Data bytes
  | End
  | ReqError string

datatype body_result =
    BodyPending
  | BodyResolved bytes
  | BodyRejected string
  | BodyTooLarge

fun readBodyBufferFrom ::
  "nat \<Rightarrow> bytes list \<Rightarrow> nat \<Rightarrow> req_event list \<Rightarrow> body_result \<times> req_event list" where
  "readBodyBufferFrom maxBytes chunks seen [] = (BodyPending, [])"
| "readBodyBufferFrom maxBytes chunks seen (Data chunk # evs) =
     (if seen + length chunk > maxBytes then (BodyTooLarge, evs)
      else readBodyBufferFrom maxBytes (chunks @ [chunk]) (seen + length chunk) evs)"
| "readBodyBufferFrom maxBytes chunks seen (End # evs) = (BodyResolved (concat chunks), evs)"
| "readBodyBufferFrom maxBytes chunks seen (ReqError err # evs) = (BodyRejected err, evs)"

definition readBodyBuffer :: "nat \<Rightarrow> req_event list \<Rightarrow> body_result \<times> req_event list" where
  "readBodyBuffer maxBytes evs = readBodyBufferFrom maxBytes [] 0 evs"

subsection \<open>Resolving paths\<close>

text \<open>
  \<^verbatim>\<open>path.resolve(p)\<close> on POSIX: a relative path is taken from the working directory,
  empty and \<open>.\<close> segments are dropped, a \<open>..\<close> segment removes the segment before it (at
  the root it removes nothing), and the result has no trailing separator.
\<close>

fun normSegments :: "string list \<Rightarrow> string list \<Rightarrow> string list" where
  \<comment> \<open>the segments kept so far, last first, and the segments still to read\<close>
  "normSegments acc [] = rev acc"
| "normSegments acc (s # ss) =
     (if s = [] \<or> s = ''.'' then normSegments acc ss
      else if s = ''..'' then normSegments (tl acc) ss
      else normSegments (s # acc) ss)"

definition joinSegments :: "string list \<Rightarrow> string" where
  "joinSegments segs = concat (map (\<lambda>s. CHR ''/'' # s) segs)"

definition pathResolve :: "string \<Rightarrow> string \<Rightarrow> string" where
  \<comment> \<open>\<open>base\<close> is an absolute path: the working directory\<close>
  "pathResolve base p =
     (let full = (if startsWith p ''/'' then p else base @ ''/'' @ p);
          segs = normSegments [] (splitOn CHR ''/'' full)
      in if segs = [] then ''/'' else joinSegments segs)"

subsection \<open>Extracting an archive\<close>

text \<open>
  The tar library is not part of the wrapper; what follows is modelled from its
  documentation and its behaviour on a disk. It is taken as a decoder from the bytes
  of an archive to the entries read (path and content of each regular file, in the
  order of the archive) and whether the archive was read to its end without error.
  \<^verbatim>\<open>tar.x({ cwd, filter, strict: true, ... })\<close> calls \<open>filter\<close> with the path of each
  entry and skips the entry when it returns false. An entry it lets through is
  written at \<^verbatim>\<open>path.resolve(cwd, entry.path)\<close>; the directories above that path are
  created first. The write fails when one of these directories is a regular file
  (\<open>EEXIST\<close>), when the path is a directory that holds files (\<open>ENOTEMPTY\<close>), or when it is
  \<open>cwd\<close> itself (\<open>EISDIR\<close>). A file that is already there is replaced. In strict mode
  the first failure, and an archive that does not read well (its error stands here as
  \<open>TAR_BAD_ARCHIVE\<close>), make the promise reject; the entries written before stay on
  disk. The extraction is taken to stop at the first failure, and the text of an
  error is cut to its code.

  The disk holds regular files only, so a directory is a path with a file below it.
  Links and directory entries of an archive are left out, and so is the removal of a
  leading separator from an absolute entry path, which concerns only paths that the
  filter of the wrapper refuses.
\<close>

record tar_entry =
  entryPath :: string
  payload :: bytes

fun prefixesFrom :: "string \<Rightarrow> string list \<Rightarrow> string list" where
  \<comment> \<open>the paths \<open>base/s1\<close>, \<open>base/s1/s2\<close>, ... short of the last segment\<close>
  "prefixesFrom base [] = []"
| "prefixesFrom base [s] = []"
| "prefixesFrom base (s # s' # ss) =
     (base @ CHR ''/'' # s) # prefixesFrom (base @ CHR ''/'' # s) (s' # ss)"

definition properAncestors :: "string \<Rightarrow> string list" where
  \<comment> \<open>the directories above an absolute, resolved path, the root apart\<close>
  "properAncestors t = prefixesFrom [] (tl (splitOn CHR ''/'' t))"

definition isDirectoryIn :: "(string \<rightharpoonup> bytes) \<Rightarrow> string \<Rightarrow> bool" where
  "isDirectoryIn fs d = (\<exists>k\<in>dom fs. startsWith k (d @ ''/''))"

definition extractEntry ::
  "string \<Rightarrow> (string \<Rightarrow> bool) \<Rightarrow> (string \<rightharpoonup> bytes) \<Rightarrow> tar_entry \<Rightarrow> string + (string \<rightharpoonup> bytes)" where
  \<comment> \<open>\<open>Inl\<close> is the code of the error that makes the extraction fail\<close>
  "extractEntry cwd flt fs entry =
     (if \<not> flt (entryPath entry) then Inr fs
      else
        (let t = pathResolve cwd (entryPath entry) in
         if t = pathResolve cwd [] then Inl ''EISDIR''
         else if list_ex (\<lambda>d. fs d \<noteq> None) (properAncestors t) then Inl ''EEXIST''
         else if isDirectoryIn fs t then Inl ''ENOTEMPTY''
         else Inr (fs(t \<mapsto> payload entry))))"

fun tarExtract ::
  "string \<Rightarrow> (string \<Rightarrow> bool) \<Rightarrow> tar_entry list \<Rightarrow> (string \<rightharpoonup> bytes) \<Rightarrow>
     (string \<times> (string \<rightharpoonup> bytes)) + (string \<rightharpoonup> bytes)" where
  \<comment> \<open>\<open>Inl\<close> is the error and the files as the failed extraction leaves them\<close>
  "tarExtract cwd flt [] fs = Inr fs"
| "tarExtract cwd flt (entry # entries) fs =
     (case extractEntry cwd flt fs entry of
        Inl err \<Rightarrow> Inl (err, fs)
      | Inr fs' \<Rightarrow> tarExtract cwd flt entries fs')"

subsection \<open>Importing a backup: \<open>POST /setup/import\<close>\<close>

text \<open>
  \<^verbatim>\<open>
  const dataRoot = "/data";
  if (!isUnderDir(STATE_DIR, dataRoot) || !isUnderDir(WORKSPACE_DIR, dataRoot)) {
    return res.status(400).type("text/plain").send("Import is only supported when ...");
  }
  // Stop gateway before restore so we don't overwrite live files.
  if (gatewayProc) {
    try { gatewayProc.kill("SIGTERM"); } catch {}
    await sleep(750);
    gatewayProc = null;
  }
  const buf = await readBodyBuffer(req, 250 * 1024 * 1024); // 250MB max
  if (!buf.length) return res.status(400).type("text/plain").send("Empty body\n");
  const tmpPath = path.join(os.tmpdir(), `openclaw-import-${Date.now()}.tar.gz`);
  fs.writeFileSync(tmpPath, buf);
  await tar.x({ file: tmpPath, cwd: dataRoot, gzip: true, strict: true, onwarn: () => {},
    filter: (p) => { return looksSafeTarPath(p); } });
  try { fs.rmSync(tmpPath, { force: true }); } catch {}
  // Restart gateway after restore.
  if (isConfigured()) { await restartGateway(); }
  res.type("text/plain").send("OK - imported backup into /data and restarted gateway.\n");
  } catch (err) {
    res.status(500).type("text/plain").send(String(err));
  }
  \<close>
  After an \<open>error\<close> event of the request the handler sends its reply as after any other
  exception; whether a client is still there to read it is not modelled.
\<close>

definition dataRoot :: string where
  "dataRoot = ''/data''"

definition isUnderDir :: "env \<Rightarrow> string \<Rightarrow> string \<Rightarrow> bool" where
  \<comment> \<open>\<^verbatim>\<open>const abs = path.resolve(p); const r = path.resolve(root);
      return abs === r || abs.startsWith(r + path.sep);\<close>\<close>
  "isUnderDir e p root =
     (let abs = pathResolve (processCwd e) p; r = pathResolve (processCwd e) root
      in abs = r \<or> startsWith abs (r @ ''/''))"

definition importTmpPath :: "env \<Rightarrow> nat \<Rightarrow> string" where
  "importTmpPath e now = pathJoin (tmpdir e) (''openclaw-import-'' @ showNat now @ ''.tar.gz'')"

definition importedText :: string where
  "importedText = ''OK - imported backup into /data and restarted gateway.'' @ [CHR 0x0A]"

definition postImport ::
  "env \<Rightarrow> (bytes \<Rightarrow> tar_entry list \<times> bool) \<Rightarrow> nat \<Rightarrow> req_event list \<Rightarrow> world \<Rightarrow> handler_end \<times> world" where
  "postImport e decode now reqEvents w =
     (if \<not> isUnderDir e (STATE_DIR e) dataRoot \<or> \<not> isUnderDir e (WORKSPACE_DIR e) dataRoot
      then (Replied (Reply 400
              (''Import is only supported when OPENCLAW_STATE_DIR and OPENCLAW_WORKSPACE_DIR are under /data (Railway volume).''
               @ [CHR 0x0A])), w)
      else
        (let w1 = stopGateway w in
         case fst (readBodyBuffer (250 * 1024 * 1024) reqEvents) of
           BodyPending \<Rightarrow> (NoReplyYet, w1)
         | BodyTooLarge \<Rightarrow> (SentAfterDestroy (Reply 500 ''Error: payload too large''), w1)
         | BodyRejected err \<Rightarrow> (Replied (Reply 500 (''Error: '' @ err)), w1)
         | BodyResolved buf \<Rightarrow>
             (if buf = [] then (Replied (Reply 400 (''Empty body'' @ [CHR 0x0A])), w1)
              else
                (let w2 = w1\<lparr>files := (files w1)(importTmpPath e now \<mapsto> buf)\<rparr> in
                 case tarExtract dataRoot looksSafeTarPath (fst (decode buf)) (files w2) of
                   Inl failed \<Rightarrow> (Replied (Reply 500 (''Error: '' @ fst failed)), w2\<lparr>files := snd failed\<rparr>)
                 | Inr fs \<Rightarrow>
                     (if \<not> snd (decode buf)
                      then (Replied (Reply 500 ''Error: TAR_BAD_ARCHIVE''), w2\<lparr>files := fs\<rparr>)
                      else
                        (let w4 = w2\<lparr>files := fs(importTmpPath e now := None)\<rparr>
                         in if isConfigured e w4 then (RestartThenReply (Reply 200 importedText), w4)
                            else (Replied (Reply 200 importedText), w4)))))))"

definition leftOnDisk :: "(string \<times> (string \<rightharpoonup> bytes)) + (string \<rightharpoonup> bytes) \<Rightarrow> (string \<rightharpoonup> bytes)" where
  \<comment> \<open>the files after an extraction, failed or not\<close>
  "leftOnDisk r = (case r of Inl failed \<Rightarrow> snd failed | Inr fs \<Rightarrow> fs)"

definition withoutRefused :: "(bytes \<Rightarrow> tar_entry list \<times> bool) \<Rightarrow> bytes \<Rightarrow> tar_entry list \<times> bool" where
  \<comment> \<open>the same archives with the entries that \<open>looksSafeTarPath\<close> refuses taken out\<close>
  "withoutRefused decode buf =
     (filter (\<lambda>entry. looksSafeTarPath (entryPath entry)) (fst (decode buf)), snd (decode buf))"

definition clashingArchive :: "bytes \<Rightarrow> tar_entry list \<times> bool" where
  \<comment> \<open>an upload that decodes to a file \<open>a\<close> followed by a file \<open>a/b\<close>\<close>
  "clashingArchive buf =
     ([\<lparr>entryPath = ''a'', payload = ''x''\<rparr>, \<lparr>entryPath = ''a/b'', payload = ''y''\<rparr>], True)"

definition mixedArchive :: "bytes \<Rightarrow> tar_entry list \<times> bool" where
  \<comment> \<open>an upload that decodes to a well-formed archive of two files, the second with a
      path that climbs out of the extraction directory\<close>
  "mixedArchive buf =
     ([\<lparr>entryPath = ''ok.txt'', payload = ''x''\<rparr>,
       \<lparr>entryPath = ''../../etc/passwd'', payload = ''y''\<rparr>], True)"

subsection \<open>The debug console: \<open>POST /setup/api/console/run\<close>\<close>

text \<open>
  \<^verbatim>\<open>
  const payload = req.body || {};
  const cmd = String(payload.cmd || "").trim();
  const arg = String(payload.arg || "").trim();
  if (!ALLOWED_CONSOLE_COMMANDS.has(cmd)) {
    return res.status(400).json({ ok: false, error: "Command not allowed" });
  }
  try {
    if (cmd === "gateway.restart") { await restartGateway(); return res.json(...); }
    if (cmd === "gateway.stop") { ... }
    if (cmd === "gateway.start") { const r = await ensureGatewayRunning(); ... }
    if (cmd === "openclaw.version") {
      const r = await runCmd(OPENCLAW_NODE, clawArgs(["--version"])); ... }
    ...
    if (cmd === "openclaw.logs.tail") {
      const lines = Math.max(50, Math.min(1000, Number.parseInt(arg || "200", 10) || 200));
      const r = await runCmd(OPENCLAW_NODE, clawArgs(["logs", "--tail", String(lines)])); ... }
    if (cmd === "openclaw.config.get") {
      if (!arg) return res.status(400).json({ ok: false, error: "Missing config path" });
      const r = await runCmd(OPENCLAW_NODE, clawArgs(["config", "get", arg])); ... }
    ...
    if (cmd === "openclaw.devices.approve") {
      const requestId = String(arg || "").trim();
      if (!requestId) { return res.status(400).json({ ok: false, error: "Missing device request ID" }); }
      if (!/^[A-Za-z0-9_-]+$/.test(requestId)) {
        return res.status(400).json({ ok: false, error: "Invalid device request ID" }); }
      const r = await runCmd(OPENCLAW_NODE, clawArgs(["devices", "approve", requestId])); ... }
    ...
    return res.status(400).json({ ok: false, error: "Unhandled command" });
  } catch (err) { return res.status(500).json({ ok: false, error: String(err) }); }
  \<close>
  The handler is modelled up to its first \<^verbatim>\<open>await\<close>: it replies, or it calls the
  supervisor, or it calls \<open>runCmd\<close> with a command and an argument vector (and then
  replies with status 200 or 500 by the exit code). \<open>cmdRaw\<close> and \<open>argRaw\<close> are
  \<^verbatim>\<open>String(payload.cmd || "")\<close> and \<^verbatim>\<open>String(payload.arg || "")\<close>.
\<close>

definition ALLOWED_CONSOLE_COMMANDS :: "string list" where
  "ALLOWED_CONSOLE_COMMANDS =
     [''gateway.restart'', ''gateway.stop'', ''gateway.start'',
      ''openclaw.version'', ''openclaw.status'', ''openclaw.health'', ''openclaw.doctor'',
      ''openclaw.logs.tail'', ''openclaw.config.get'',
      ''openclaw.devices.list'', ''openclaw.devices.approve'',
      ''openclaw.plugins.list'', ''openclaw.plugins.enable'']"

datatype console_step =
    ConsoleReply reply
  | RestartGatewayThen reply
  | StopGatewayThen reply
  | EnsureGatewayThenReply
  | RunCmdThenReply string "string list"

definition matchesIdRegex :: "string \<Rightarrow> bool" where
  \<comment> \<open>\<^verbatim>\<open>/^[A-Za-z0-9_-]+$/.test(s)\<close>\<close>
  "matchesIdRegex s =
     (s \<noteq> [] \<and> list_all (\<lambda>c. isAsciiLetter c \<or> isAsciiDigit c \<or> c = CHR ''_'' \<or> c = CHR ''-'') s)"

definition tailLines :: "string \<Rightarrow> int" where
  \<comment> \<open>\<^verbatim>\<open>Math.max(50, Math.min(1000, Number.parseInt(arg || "200", 10) || 200))\<close>\<close>
  "tailLines arg =
     max 50 (min 1000
       (case parseInt10 (if arg = [] then ''200'' else arg) of
          None \<Rightarrow> 200
        | Some n \<Rightarrow> if n = 0 then 200 else n))"

definition consoleRun :: "env \<Rightarrow> string \<Rightarrow> string \<Rightarrow> console_step" where
  "consoleRun e cmdRaw argRaw =
     (let cmd = trim cmdRaw; arg = trim argRaw in
      if cmd \<notin> set ALLOWED_CONSOLE_COMMANDS then ConsoleReply (Reply 400 ''Command not allowed'')
      else if cmd = ''gateway.restart''
        then RestartGatewayThen (Reply 200 (''Gateway restarted (wrapper-managed).'' @ [CHR 0x0A]))
      else if cmd = ''gateway.stop''
        then StopGatewayThen (Reply 200 (''Gateway stopped (wrapper-managed).'' @ [CHR 0x0A]))
      else if cmd = ''gateway.start'' then EnsureGatewayThenReply
      else if cmd = ''openclaw.version'' then RunCmdThenReply (OPENCLAW_NODE e) (clawArgs e [''--version''])
      else if cmd = ''openclaw.status'' then RunCmdThenReply (OPENCLAW_NODE e) (clawArgs e [''status''])
      else if cmd = ''openclaw.health'' then RunCmdThenReply (OPENCLAW_NODE e) (clawArgs e [''health''])
      else if cmd = ''openclaw.doctor'' then RunCmdThenReply (OPENCLAW_NODE e) (clawArgs e [''doctor''])
      else if cmd = ''openclaw.logs.tail''
        then RunCmdThenReply (OPENCLAW_NODE e) (clawArgs e [''logs'', ''--tail'', showInt (tailLines arg)])
      else if cmd = ''openclaw.config.get''
        then (if arg = [] then ConsoleReply (Reply 400 ''Missing config path'')
              else RunCmdThenReply (OPENCLAW_NODE e) (clawArgs e [''config'', ''get'', arg]))
      else if cmd = ''openclaw.devices.list''
        then RunCmdThenReply (OPENCLAW_NODE e) (clawArgs e [''devices'', ''list''])
      else if cmd = ''openclaw.devices.approve''
        then (let requestId = trim arg in
              if requestId = [] then ConsoleReply (Reply 400 ''Missing device request ID'')
              else if \<not> matchesIdRegex requestId then ConsoleReply (Reply 400 ''Invalid device request ID'')
              else RunCmdThenReply (OPENCLAW_NODE e) (clawArgs e [''devices'', ''approve'', requestId]))
      else if cmd = ''openclaw.plugins.list''
        then RunCmdThenReply (OPENCLAW_NODE e) (clawArgs e [''plugins'', ''list''])
      else if cmd = ''openclaw.plugins.enable''
        then (let name = trim arg in
              if name = [] then ConsoleReply (Reply 400 ''Missing plugin name'')
              else if \<not> matchesIdRegex name then ConsoleReply (Reply 400 ''Invalid plugin name'')
              else RunCmdThenReply (OPENCLAW_NODE e) (clawArgs e [''plugins'', ''enable'', name]))
      else ConsoleReply (Reply 400 ''Unhandled command''))"

fun callsRunCmd :: "console_step \<Rightarrow> bool" where
  "callsRunCmd (RunCmdThenReply c argv) = True"
| "callsRunCmd _ = False"

section \<open>Properties of the traversal-safety predicate\<close>

lemma splitOn_nonempty: "splitOn c p \<noteq> []"
  by (induction p) auto

lemma hd_splitOn: "hd (splitOn c p) = takeWhile (\<lambda>x. x \<noteq> c) p"
  by (induction p) auto

lemma takeWhile_prefix_iff:
  "(s = takeWhile (\<lambda>x. x \<noteq> c) p) \<longleftrightarrow>
     (c \<notin> set s \<and> (\<exists>a. p = s @ a \<and> (a = [] \<or> hd a = c)))"
proof
  assume s: "s = takeWhile (\<lambda>x. x \<noteq> c) p"
  have "p = s @ dropWhile (\<lambda>x. x \<noteq> c) p" by (simp add: s)
  moreover have "dropWhile (\<lambda>x. x \<noteq> c) p = [] \<or> hd (dropWhile (\<lambda>x. x \<noteq> c) p) = c"
    using hd_dropWhile[of "\<lambda>x. x \<noteq> c" p] by auto
  moreover have "c \<notin> set s" unfolding s using set_takeWhileD by fastforce
  ultimately show "c \<notin> set s \<and> (\<exists>a. p = s @ a \<and> (a = [] \<or> hd a = c))" by blast
next
  assume "c \<notin> set s \<and> (\<exists>a. p = s @ a \<and> (a = [] \<or> hd a = c))"
  then obtain a where c: "c \<notin> set s" and p: "p = s @ a" and a: "a = [] \<or> hd a = c" by blast
  have all: "\<forall>x\<in>set s. x \<noteq> c" using c by auto
  then have tw: "takeWhile (\<lambda>x. x \<noteq> c) s = s" by (simp add: takeWhile_eq_all_conv)
  show "s = takeWhile (\<lambda>x. x \<noteq> c) p"
  proof (cases a)
    case Nil
    then show ?thesis unfolding p by (simp add: tw)
  next
    case (Cons y ys)
    then have "y = c" using a by simp
    then show ?thesis unfolding p Cons by (simp add: takeWhile_tail tw)
  qed
qed

lemma tl_splitOn_iff:
  "s \<in> set (tl (splitOn c p)) \<longleftrightarrow>
     (c \<notin> set s \<and> (\<exists>b a. p = b @ s @ a \<and> b \<noteq> [] \<and> last b = c \<and> (a = [] \<or> hd a = c)))"
proof (induction p)
  case Nil
  then show ?case by simp
next
  case (Cons x xs)
  show ?case
  proof (cases "x = c")
    case True
    have "s \<in> set (tl (splitOn c (x # xs))) \<longleftrightarrow> s = hd (splitOn c xs) \<or> s \<in> set (tl (splitOn c xs))"
      using True splitOn_nonempty[of c xs] by (cases "splitOn c xs") auto
    also have "\<dots> \<longleftrightarrow> (c \<notin> set s \<and> (\<exists>a. xs = s @ a \<and> (a = [] \<or> hd a = c)))
          \<or> (c \<notin> set s \<and> (\<exists>b a. xs = b @ s @ a \<and> b \<noteq> [] \<and> last b = c \<and> (a = [] \<or> hd a = c)))"
      using Cons.IH takeWhile_prefix_iff[of s c xs] by (simp add: hd_splitOn)
    also have "\<dots> \<longleftrightarrow> (c \<notin> set s \<and> (\<exists>b a. x # xs = b @ s @ a \<and> b \<noteq> [] \<and> last b = c \<and> (a = [] \<or> hd a = c)))"
      (is "?L \<longleftrightarrow> ?R")
    proof
      assume ?L
      then show ?R
      proof
        assume "c \<notin> set s \<and> (\<exists>a. xs = s @ a \<and> (a = [] \<or> hd a = c))"
        then obtain a where "c \<notin> set s" "xs = s @ a" "a = [] \<or> hd a = c" by blast
        then have "x # xs = [c] @ s @ a \<and> [c] \<noteq> [] \<and> last [c] = c \<and> (a = [] \<or> hd a = c)"
          using True by simp
        then show ?R using \<open>c \<notin> set s\<close> by blast
      next
        assume "c \<notin> set s \<and> (\<exists>b a. xs = b @ s @ a \<and> b \<noteq> [] \<and> last b = c \<and> (a = [] \<or> hd a = c))"
        then obtain b a where h: "c \<notin> set s" "xs = b @ s @ a" "b \<noteq> []" "last b = c" "a = [] \<or> hd a = c"
          by blast
        then have "x # xs = (x # b) @ s @ a \<and> x # b \<noteq> [] \<and> last (x # b) = c \<and> (a = [] \<or> hd a = c)"
          by simp
        then show ?R using h(1) by blast
      qed
    next
      assume ?R
      then obtain b a where h: "c \<notin> set s" "x # xs = b @ s @ a" "b \<noteq> []" "last b = c" "a = [] \<or> hd a = c"
        by blast
      then obtain b' where b: "b = x # b'" by (cases b) auto
      then have xs: "xs = b' @ s @ a" using h(2) by simp
      show ?L
      proof (cases "b' = []")
        case True
        then show ?thesis using xs h by auto
      next
        case False
        then have "last b' = c" using h(4) b by simp
        then show ?thesis using xs h False by blast
      qed
    qed
    finally show ?thesis .
  next
    case False
    have "s \<in> set (tl (splitOn c (x # xs))) \<longleftrightarrow> s \<in> set (tl (splitOn c xs))"
      using False by simp
    also have "\<dots> \<longleftrightarrow> (c \<notin> set s \<and> (\<exists>b a. xs = b @ s @ a \<and> b \<noteq> [] \<and> last b = c \<and> (a = [] \<or> hd a = c)))"
      by (rule Cons.IH)
    also have "\<dots> \<longleftrightarrow> (c \<notin> set s \<and> (\<exists>b a. x # xs = b @ s @ a \<and> b \<noteq> [] \<and> last b = c \<and> (a = [] \<or> hd a = c)))"
      (is "?L \<longleftrightarrow> ?R")
    proof
      assume ?L
      then obtain b a where h: "c \<notin> set s" "xs = b @ s @ a" "b \<noteq> []" "last b = c" "a = [] \<or> hd a = c"
        by blast
      then have "x # xs = (x # b) @ s @ a \<and> x # b \<noteq> [] \<and> last (x # b) = c \<and> (a = [] \<or> hd a = c)"
        by simp
      then show ?R using h(1) by blast
    next
      assume ?R
      then obtain b a where h: "c \<notin> set s" "x # xs = b @ s @ a" "b \<noteq> []" "last b = c" "a = [] \<or> hd a = c"
        by blast
      then obtain b' where b: "b = x # b'" by (cases b) auto
      then have xs: "xs = b' @ s @ a" using h(2) by simp
      have "b' \<noteq> []" using h(4) b False by auto
      then have "last b' = c" using h(4) b by simp
      then show ?L using xs h \<open>b' \<noteq> []\<close> by blast
    qed
    finally show ?thesis .
  qed
qed

lemma splitOn_segment_iff:
  "s \<in> set (splitOn c p) \<longleftrightarrow>
     (c \<notin> set s \<and> (\<exists>b a. p = b @ s @ a \<and> (b = [] \<or> last b = c) \<and> (a = [] \<or> hd a = c)))"
proof -
  have "s \<in> set (splitOn c p) \<longleftrightarrow> s = hd (splitOn c p) \<or> s \<in> set (tl (splitOn c p))"
    using splitOn_nonempty[of c p] by (cases "splitOn c p") auto
  also have "\<dots> \<longleftrightarrow> (c \<notin> set s \<and> (\<exists>a. p = s @ a \<and> (a = [] \<or> hd a = c)))
        \<or> (c \<notin> set s \<and> (\<exists>b a. p = b @ s @ a \<and> b \<noteq> [] \<and> last b = c \<and> (a = [] \<or> hd a = c)))"
    using tl_splitOn_iff[of s c p] takeWhile_prefix_iff[of s c p] by (simp add: hd_splitOn)
  also have "\<dots> \<longleftrightarrow> (c \<notin> set s \<and> (\<exists>b a. p = b @ s @ a \<and> (b = [] \<or> last b = c) \<and> (a = [] \<or> hd a = c)))"
    by (metis append_Nil)
  finally show ?thesis .
qed

text \<open>
  Claim C4. The traversal-safety predicate accepts exactly the non-empty paths that are
  not absolute (do not start with \<open>/\<close> or a backslash), have no drive-letter prefix
  (letter, colon, separator) and have no \<open>..\<close> segment between \<open>/\<close> separators;
  it rejects every other path.
\<close>

theorem looksSafeTarPath_exact:
  "looksSafeTarPath p \<longleftrightarrow>
     (p \<noteq> [] \<and> \<not> isAbsolutePath p \<and> \<not> hasDrivePrefix p \<and> \<not> hasParentSegment p)"
proof -
  have abs: "(startsWith p ''/'' \<or> startsWith p [backslash]) = isAbsolutePath p"
    by (cases p) (auto simp: startsWith_def isAbsolutePath_def)
  have drv: "driveLetterRegex p = hasDrivePrefix p"
    by (auto simp: driveLetterRegex_def hasDrivePrefix_def split: list.splits)
  have seg: "(''..'' \<in> set (splitOn CHR ''/'' p)) = hasParentSegment p"
    unfolding hasParentSegment_def isSegmentOf_def
    by (simp only: splitOn_segment_iff)
  show ?thesis
    unfolding looksSafeTarPath_def abs drv seg by auto
qed

section \<open>Properties of \<open>runCmd\<close>\<close>

lemma runCmdFrom_never_rejects: "runCmdFrom out evs \<noteq> Rejects e"
  by (induction out evs rule: runCmdFrom.induct) simp_all

lemma runCmdFrom_pending_iff: "runCmdFrom out evs = Pending \<longleftrightarrow> \<not> list_ex isTerminal evs"
  by (induction out evs rule: runCmdFrom.induct) simp_all

lemma runCmdFrom_data_prefix:
  "\<not> list_ex isTerminal pre \<Longrightarrow>
     runCmdFrom out (pre @ evs) = runCmdFrom (out @ concat (map dataOf pre)) evs"
  by (induction out pre rule: runCmdFrom.induct) simp_all

text \<open>
  When \<open>spawn\<close> accepts the command and its arguments, the promise is never rejected:
  it is resolved at the first \<open>error\<close> event (code 127, the \<open>[spawn error]\<close> line after
  the output so far) or \<open>close\<close> event (its code, 0 for a null code), and pending before.
\<close>

lemma runCmd_resolves_when_spawned:
  assumes "\<not> spawnThrows cmd args"
  shows "runCmd cmd args evs \<noteq> Rejects e \<and>
   (list_ex isTerminal evs \<longrightarrow> (\<exists>r. runCmd cmd args evs = Resolved r)) \<and>
   (\<not> list_ex isTerminal pre \<longrightarrow>
      runCmd cmd args (pre @ ProcError err # rest) =
        Resolved \<lparr>code = 127,
          outputText = concat (map dataOf pre) @ [CHR 0x0A] @ ''[spawn error] '' @ err @ [CHR 0x0A]\<rparr> \<and>
      runCmd cmd args (pre @ ProcClose None # rest) =
        Resolved \<lparr>code = 0, outputText = concat (map dataOf pre)\<rparr> \<and>
      runCmd cmd args (pre @ ProcClose (Some k) # rest) =
        Resolved \<lparr>code = k, outputText = concat (map dataOf pre)\<rparr>)"
proof -
  have r: "runCmd cmd args xs = runCmdFrom [] xs" for xs
    using assms by (simp add: runCmd_def)
  have "list_ex isTerminal evs \<longrightarrow> (\<exists>r. runCmd cmd args evs = Resolved r)"
  proof
    assume "list_ex isTerminal evs"
    then have "runCmdFrom [] evs \<noteq> Pending"
      by (simp add: runCmdFrom_pending_iff)
    moreover have "runCmdFrom [] evs \<noteq> Rejects x" for x
      by (rule runCmdFrom_never_rejects)
    ultimately show "\<exists>r. runCmd cmd args evs = Resolved r"
      unfolding r by (cases "runCmdFrom [] evs") auto
  qed
  then show ?thesis
    by (simp add: r runCmdFrom_never_rejects runCmdFrom_data_prefix)
qed

text \<open>
  Claim C10, evaluated. The console hands the parameter of \<open>openclaw.config.get\<close> to
  \<open>runCmd\<close> as it is. With a NUL character in it, \<open>childProcess.spawn\<close> throws inside
  the executor and the promise of \<open>runCmd\<close> is rejected, whatever the events \<open>evs\<close> a
  child would have emitted.
\<close>

theorem runCmd_rejects_nul_argument:
  "consoleRun railwayEnv ''openclaw.config.get'' [CHR ''a'', NUL, CHR ''b''] =
     RunCmdThenReply ''node'' [''/openclaw/dist/entry.js'', ''config'', ''get'', [CHR ''a'', NUL, CHR ''b'']] \<and>
   runCmd ''node'' [''/openclaw/dist/entry.js'', ''config'', ''get'', [CHR ''a'', NUL, CHR ''b'']] evs =
     Rejects ''ERR_INVALID_ARG_VALUE''"
proof -
  have t: "trim ''openclaw.config.get'' = ''openclaw.config.get''"
    "trim [CHR ''a'', NUL, CHR ''b''] = [CHR ''a'', NUL, CHR ''b'']"
    by (simp_all add: trim_def isJsWhitespace_def NUL_def)
  have a: "consoleRun railwayEnv ''openclaw.config.get'' [CHR ''a'', NUL, CHR ''b''] =
     RunCmdThenReply ''node'' [''/openclaw/dist/entry.js'', ''config'', ''get'', [CHR ''a'', NUL, CHR ''b'']]"
    by (simp add: consoleRun_def Let_def t ALLOWED_CONSOLE_COMMANDS_def railwayEnv_def clawArgs_def)
  have b: "runCmd ''node'' [''/openclaw/dist/entry.js'', ''config'', ''get'', [CHR ''a'', NUL, CHR ''b'']] evs =
     Rejects ''ERR_INVALID_ARG_VALUE''"
    by (simp add: runCmd_def spawnThrows_def)
  show ?thesis using a b by simp
qed

section \<open>Properties of the supervisor\<close>

lemmas supervisor_defs =
  ensureGatewayRunning_def beginAttempt_def startGateway_def attemptFailed_def
  runDoctorBestEffort_def settle_def drain_def

lemmas deployment_defs =
  isConfigured_def resolveConfigCandidates_def existsSync_def pathJoin_def railwayEnv_def
  bootWorld_def configuredFiles_def

lemma isConfigured_iff:
  "isConfigured e w \<longleftrightarrow> (\<exists>p\<in>set (resolveConfigCandidates e). files w p \<noteq> None)"
  by (simp add: isConfigured_def existsSync_def list_ex_iff)

lemma isConfigured_files: "files w' = files w \<Longrightarrow> isConfigured e w' = isConfigured e w"
  by (simp add: isConfigured_iff)

lemma files_settle: "files (settle r w) = files w"
  by (simp add: settle_def)

lemma files_drain: "files (drain w) = files w"
  by (simp add: drain_def files_settle split: option.splits attempt.splits)

lemma files_attemptFailed: "files (attemptFailed e now err w) = files w"
  by (simp add: attemptFailed_def runDoctorBestEffort_def Let_def)

lemma files_ensureGatewayRunning: "files (ensureGatewayRunning e now c w) = files w"
  by (simp add: ensureGatewayRunning_def beginAttempt_def startGateway_def files_drain
      files_attemptFailed Let_def)

lemma files_step: "files (step e w ev) = files w"
  by (cases ev)
    (simp_all add: files_ensureGatewayRunning files_settle files_drain files_attemptFailed
      split: option.splits attempt.splits bool.splits)


text \<open>
  Claim C8. When no configuration file exists and no child handle is held,
  \<open>ensureGatewayRunning\<close> returns the failure \<open>not configured\<close> to its caller and changes
  nothing else: nothing is spawned, no attempt is started. \<open>startGateway\<close> called in
  that state throws \<open>Gateway cannot start: not configured\<close> and spawns nothing either.
\<close>

theorem ensureGatewayRunning_not_configured:
  assumes "\<not> isConfigured e w" and "gatewayProc w = None"
  shows "ensureGatewayRunning e now c w = w\<lparr>results := (results w)(c \<mapsto> ReturnedNotOk ''not configured'')\<rparr> \<and>
         spawned (ensureGatewayRunning e now c w) = spawned w \<and>
         gatewayProc (ensureGatewayRunning e now c w) = None \<and>
         gatewayStarting (ensureGatewayRunning e now c w) = gatewayStarting w \<and>
         startGateway e w = Inl ''Gateway cannot start: not configured''"
  using assms by (simp add: ensureGatewayRunning_def startGateway_def)

theorem ensureGatewayRunning_not_configured_witness:
  "results (ensureGatewayRunning railwayEnv 1000 7 (bootWorld Map.empty)) 7 =
     Some (ReturnedNotOk ''not configured'') \<and>
   spawned (ensureGatewayRunning railwayEnv 1000 7 (bootWorld Map.empty)) = [] \<and>
   startGateway railwayEnv (bootWorld Map.empty) = Inl ''Gateway cannot start: not configured''"
proof -
  have nc: "\<not> isConfigured railwayEnv (bootWorld Map.empty)"
    by (simp add: deployment_defs)
  have np: "gatewayProc (bootWorld Map.empty) = None"
    by (simp add: bootWorld_def)
  show ?thesis
    using ensureGatewayRunning_not_configured [OF nc np, of 1000 7]
    by (simp add: bootWorld_def)
qed

lemma unconfigured_outside_setup_prefix:
  assumes "\<not> isConfigured e w"
  shows "(\<not> startsWith path ''/setup'' \<longrightarrow> catchAll e w path = Answer (Redirect 302 ''/setup'')) \<and>
         onUpgrade e w = SocketDestroy"
  using assms by (simp add: catchAll_def onUpgrade_def)

text \<open>
  Claim C7, evaluated. No configuration file exists. A request for \<open>/setupfoo\<close>, which
  is no route of the wrapper, reaches the catch-all middleware. Its test is on the
  prefix \<open>/setup\<close> of the path, so the request is not redirected: it is handed to the
  proxy, with no gateway to answer it. A request for \<open>/\<close> is redirected, and an
  upgrade has its socket destroyed.
\<close>

theorem unconfigured_setupfoo_is_proxied:
  "\<not> isConfigured railwayEnv (bootWorld Map.empty) \<and>
   \<not> isWrapperRoute GET ''/setupfoo'' \<and>
   catchAll railwayEnv (bootWorld Map.empty) ''/setupfoo'' = ProxyWeb \<and>
   catchAll railwayEnv (bootWorld Map.empty) ''/'' = Answer (Redirect 302 ''/setup'') \<and>
   onUpgrade railwayEnv (bootWorld Map.empty) = SocketDestroy"
  by (simp add: catchAll_def onUpgrade_def isWrapperRoute_def wrapperRoutes_def startsWith_def
      isConfigured_def resolveConfigCandidates_def existsSync_def railwayEnv_def bootWorld_def)

text \<open>
  Claim C2, evaluated. Two callers call \<open>ensureGatewayRunning\<close> one after the other on a
  configured wrapper with no child, before the gateway answers; the gateway then never
  answers within the deadline. One gateway is spawned. The first caller is suspended
  on the attempt and gets its failure; the second finds \<open>gatewayProc\<close> already set by
  the first call and gets \<open>{ ok: true }\<close> at once.
\<close>

theorem concurrent_callers_observe_different_outcomes:
  "results (run railwayEnv (bootWorld configuredFiles)
      [CallEnsure 1 1000, CallEnsure 2 1001,
       ProbeRun [(1010, False, False), (21000, False, False)] 21001, DoctorClosed]) 1 =
     Some (Threw ''Gateway did not become ready in time'') \<and>
   results (run railwayEnv (bootWorld configuredFiles)
      [CallEnsure 1 1000, CallEnsure 2 1001,
       ProbeRun [(1010, False, False), (21000, False, False)] 21001, DoctorClosed]) 2 =
     Some ReturnedOk \<and>
   results (run railwayEnv (bootWorld configuredFiles) [CallEnsure 1 1000, CallEnsure 2 1001]) 1 = None \<and>
   results (run railwayEnv (bootWorld configuredFiles) [CallEnsure 1 1000, CallEnsure 2 1001]) 2 =
     Some ReturnedOk \<and>
   gatewaySpawns railwayEnv (run railwayEnv (bootWorld configuredFiles)
      [CallEnsure 1 1000, CallEnsure 2 1001,
       ProbeRun [(1010, False, False), (21000, False, False)] 21001, DoctorClosed]) = 1"
  by (simp add: run_def supervisor_defs deployment_defs gatewaySpawns_def clawArgs_def gatewayArgs_def)

lemma ensureGatewayRunning_starts_attempt:
  assumes "isConfigured e w" and "gatewayProc w = None" and "gatewayStarting w = None"
  shows "ensureGatewayRunning e now c w =
           w\<lparr>lastGatewayError := None, gatewayProc := Some (length (spawned w)),
             spawned := spawned w @ [(OPENCLAW_NODE e, clawArgs e (gatewayArgs e))],
             gatewayStarting := Some (AwaitingReady now), waiters := waiters w @ [c]\<rparr>"
  using assms
  by (simp add: ensureGatewayRunning_def beginAttempt_def startGateway_def drain_def
      isConfigured_iff Let_def)

lemma ensureGatewayRunning_with_child:
  assumes "isConfigured e w" and "gatewayProc w = Some h"
  shows "ensureGatewayRunning e now c w = w\<lparr>results := (results w)(c \<mapsto> ReturnedOk)\<rparr>"
  using assms by (simp add: ensureGatewayRunning_def)





text \<open>
  Any number of calls made one after the other on a configured wrapper with no child
  spawn the gateway once: the first call sets \<open>gatewayProc\<close>, the others find it set.
\<close>

lemma calls_with_child_keep_spawned:
  assumes "isConfigured e w" and "gatewayProc w \<noteq> None"
  shows "spawned (foldl (step e) w (map (\<lambda>(c, now). CallEnsure c now) calls)) = spawned w \<and>
         gatewayProc (foldl (step e) w (map (\<lambda>(c, now). CallEnsure c now) calls)) = gatewayProc w"
  using assms
proof (induction calls arbitrary: w)
  case Nil
  then show ?case by simp
next
  case (Cons a calls)
  obtain c now where a: "a = (c, now)" by (cases a)
  obtain h where h: "gatewayProc w = Some h" using Cons.prems by auto
  let ?w = "w\<lparr>results := (results w)(c \<mapsto> ReturnedOk)\<rparr>"
  have s: "ensureGatewayRunning e now c w = ?w"
    using Cons.prems(1) h by (rule ensureGatewayRunning_with_child)
  have "isConfigured e ?w" using Cons.prems(1) by (simp add: isConfigured_iff)
  moreover have "gatewayProc ?w \<noteq> None" using h by simp
  ultimately show ?case
    using Cons.IH [of ?w] by (simp add: a s)
qed

lemma concurrent_calls_spawn_once:
  assumes "isConfigured e w" and "gatewayProc w = None" and "gatewayStarting w = None"
  shows "spawned (run e w (map (\<lambda>(c, now). CallEnsure c now) ((c0, t0) # calls))) =
           spawned w @ [(OPENCLAW_NODE e, clawArgs e (gatewayArgs e))]"
proof -
  let ?w1 = "ensureGatewayRunning e t0 c0 w"
  have w1: "?w1 = w\<lparr>lastGatewayError := None, gatewayProc := Some (length (spawned w)),
             spawned := spawned w @ [(OPENCLAW_NODE e, clawArgs e (gatewayArgs e))],
             gatewayStarting := Some (AwaitingReady t0), waiters := waiters w @ [c0]\<rparr>"
    using assms by (rule ensureGatewayRunning_starts_attempt)
  have "isConfigured e ?w1" using assms(1) by (simp add: isConfigured_iff w1)
  moreover have "gatewayProc ?w1 \<noteq> None" by (simp add: w1)
  ultimately have "spawned (foldl (step e) ?w1 (map (\<lambda>(c, now). CallEnsure c now) calls)) = spawned ?w1"
    using calls_with_child_keep_spawned by blast
  then show ?thesis by (simp add: run_def w1)
qed

section \<open>Properties of the configuration write\<close>

lemma sanitize_digit: "isAsciiDigit c \<Longrightarrow> (if c = CHR '':'' \<or> c = CHR ''.'' then CHR ''-'' else c) = c"
  by (auto simp: isAsciiDigit_def)

lemma sanitizeTimestamp_inj_on_shape:
  "matchesShape pat a \<Longrightarrow> matchesShape pat b \<Longrightarrow>
   sanitizeTimestamp a = sanitizeTimestamp b \<Longrightarrow> a = b"
proof (induction pat a arbitrary: b rule: matchesShape.induct)
  case 1
  then show ?case by (cases b) (simp_all add: sanitizeTimestamp_def)
next
  case (2 p ps c cs)
  then obtain d ds where b: "b = d # ds" by (cases b) auto
  have tl: "cs = ds"
    using 2 b by (simp add: sanitizeTimestamp_def)
  have "c = d"
  proof (cases "p = CHR ''d''")
    case True
    then have "isAsciiDigit c" "isAsciiDigit d" using 2 b by auto
    then show ?thesis using 2(4) b by (simp add: sanitizeTimestamp_def sanitize_digit)
  next
    case False
    then show ?thesis using 2 b by auto
  qed
  then show ?case using tl b by simp
qed simp_all

lemma backupPath_distinct:
  assumes "isIsoTimestamp t1" and "isIsoTimestamp t2" and "t1 \<noteq> t2"
  shows "backupPath p t1 \<noteq> backupPath p t2"
  using assms sanitizeTimestamp_inj_on_shape [of _ t1 t2]
  by (auto simp: backupPath_def isIsoTimestamp_def)

lemma backupPath_not_config: "backupPath p t \<noteq> p"
  by (simp add: backupPath_def)

lemma configPath_fixed:
  "configPath e w =
     (case OPENCLAW_CONFIG_PATH e of Some x \<Rightarrow> x | None \<Rightarrow> pathJoin (STATE_DIR e) ''openclaw.json'')"
  by (simp add: configPath_def resolveConfigCandidates_def split: option.splits)

lemma isConfigured_configPath: "isConfigured e w \<longleftrightarrow> files w (configPath e w) \<noteq> None"
  by (simp add: configPath_fixed isConfigured_def resolveConfigCandidates_def existsSync_def
      split: option.splits)

lemma postConfigRaw_existing:
  assumes "files w (configPath e w) = Some old" and "length content \<le> 500000"
  shows "postConfigRaw e stamp content w =
           (RestartThenReply (Reply 200 (configPath e w)),
            w\<lparr>files := (files w)(backupPath (configPath e w) stamp \<mapsto> old, configPath e w \<mapsto> content)\<rparr>)"
proof -
  have c: "configPath e (w\<lparr>files := (files w)(backupPath (configPath e w) stamp \<mapsto> old, configPath e w \<mapsto> content)\<rparr>)
        = configPath e w"
    by (simp add: configPath_fixed)
  have "isConfigured e (w\<lparr>files := (files w)(backupPath (configPath e w) stamp \<mapsto> old, configPath e w \<mapsto> content)\<rparr>)"
    unfolding isConfigured_configPath c by simp
  then show ?thesis
    using assms by (simp add: postConfigRaw_def Let_def)
qed

text \<open>
  Claim C9, as the code has it. A write on an existing configuration file copies the
  content it had to the path followed by \<open>.bak-\<close> and the timestamp, and then overwrites the file; no other
  path is created. Two successive writes whose timestamps are different values of
  \<open>toISOString()\<close> leave two distinct backup files, the first with the content before
  the first write, the second with the content the first write stored.
\<close>

theorem postConfigRaw_twice_two_backups:
  assumes "files w (configPath e w) = Some c0"
    and "length c1 \<le> 500000" and "length c2 \<le> 500000"
    and "isIsoTimestamp t1" and "isIsoTimestamp t2" and "t1 \<noteq> t2"
  shows "let p = configPath e w;
             w1 = snd (postConfigRaw e t1 c1 w);
             w2 = snd (postConfigRaw e t2 c2 w1)
         in backupPath p t1 \<noteq> backupPath p t2 \<and>
            files w1 (backupPath p t1) = Some c0 \<and> files w1 p = Some c1 \<and>
            dom (files w1) = insert (backupPath p t1) (dom (files w)) \<and>
            files w2 (backupPath p t1) = Some c0 \<and> files w2 (backupPath p t2) = Some c1 \<and>
            files w2 p = Some c2 \<and>
            dom (files w2) = insert (backupPath p t2) (dom (files w1))"
proof -
  define p where "p = configPath e w"
  define w1 where "w1 = w\<lparr>files := (files w)(backupPath p t1 \<mapsto> c0, p \<mapsto> c1)\<rparr>"
  define w2 where "w2 = w1\<lparr>files := (files w1)(backupPath p t2 \<mapsto> c1, p \<mapsto> c2)\<rparr>"
  have first: "snd (postConfigRaw e t1 c1 w) = w1"
    using postConfigRaw_existing [OF assms(1,2), of t1] by (simp add: w1_def p_def)
  have p1: "configPath e w1 = p"
    by (simp add: p_def configPath_fixed)
  have f1: "files w1 (configPath e w1) = Some c1"
    by (simp add: p1) (simp add: w1_def)
  have second: "snd (postConfigRaw e t2 c2 w1) = w2"
    using postConfigRaw_existing [OF f1 assms(3), of t2] by (simp add: w2_def p1)
  have d: "backupPath p t1 \<noteq> backupPath p t2"
    using assms(4-6) by (rule backupPath_distinct)
  have n1: "backupPath p t1 \<noteq> p" and n2: "backupPath p t2 \<noteq> p"
    by (rule backupPath_not_config)+
  have pin: "p \<in> dom (files w)"
    using assms(1) by (auto simp: p_def)
  have "files w1 (backupPath p t1) = Some c0" "files w1 p = Some c1"
    using n1 by (simp_all add: w1_def)
  moreover have "dom (files w1) = insert (backupPath p t1) (dom (files w))"
    using pin by (auto simp: w1_def)
  moreover have "files w2 (backupPath p t1) = Some c0" "files w2 (backupPath p t2) = Some c1"
    "files w2 p = Some c2"
    using n1 n2 d by (simp_all add: w2_def w1_def)
  moreover have "dom (files w2) = insert (backupPath p t2) (dom (files w1))"
    by (auto simp: w2_def w1_def)
  ultimately show ?thesis
    unfolding Let_def first second p_def [symmetric] using d by simp
qed

theorem postConfigRaw_twice_two_backups_witness:
  "files (snd (postConfigRaw railwayEnv ''2026-01-01T00:00:00.001Z'' ''v2''
      (snd (postConfigRaw railwayEnv ''2026-01-01T00:00:00.000Z'' ''v1'' (bootWorld configuredFiles)))))
     ''/data/.openclaw/openclaw.json.bak-2026-01-01T00-00-00-000Z'' = Some ''{}'' \<and>
   files (snd (postConfigRaw railwayEnv ''2026-01-01T00:00:00.001Z'' ''v2''
      (snd (postConfigRaw railwayEnv ''2026-01-01T00:00:00.000Z'' ''v1'' (bootWorld configuredFiles)))))
     ''/data/.openclaw/openclaw.json.bak-2026-01-01T00-00-00-001Z'' = Some ''v1'' \<and>
   files (snd (postConfigRaw railwayEnv ''2026-01-01T00:00:00.001Z'' ''v2''
      (snd (postConfigRaw railwayEnv ''2026-01-01T00:00:00.000Z'' ''v1'' (bootWorld configuredFiles)))))
     ''/data/.openclaw/openclaw.json'' = Some ''v2''"
proof -
  have p: "configPath railwayEnv (bootWorld configuredFiles) = ''/data/.openclaw/openclaw.json''"
    by (simp add: configPath_fixed railwayEnv_def pathJoin_def)
  have a: "files (bootWorld configuredFiles) (configPath railwayEnv (bootWorld configuredFiles)) = Some ''{}''"
    unfolding p by (simp add: bootWorld_def configuredFiles_def)
  have l: "length ''v1'' \<le> 500000" "length ''v2'' \<le> 500000"
    by simp_all
  have t: "isIsoTimestamp ''2026-01-01T00:00:00.000Z''" "isIsoTimestamp ''2026-01-01T00:00:00.001Z''"
    by (simp_all add: isIsoTimestamp_def isAsciiDigit_def)
  have n: "''2026-01-01T00:00:00.000Z'' \<noteq> ''2026-01-01T00:00:00.001Z''"
    by simp
  show ?thesis
    using postConfigRaw_twice_two_backups [OF a l t n]
    unfolding p Let_def by (simp add: backupPath_def sanitizeTimestamp_def)
qed

text \<open>
  Claim C9 as stated fails when the two writes read the same timestamp: both backups
  have the same name, the second copy overwrites the first, and the content before
  the first write is in no file any more.
\<close>

theorem postConfigRaw_same_timestamp_one_backup:
  "dom (files (snd (postConfigRaw railwayEnv ''2026-01-01T00:00:00.000Z'' ''v2''
      (snd (postConfigRaw railwayEnv ''2026-01-01T00:00:00.000Z'' ''v1'' (bootWorld configuredFiles)))))) =
     {''/data/.openclaw/openclaw.json'', ''/data/.openclaw/openclaw.json.bak-2026-01-01T00-00-00-000Z''} \<and>
   files (snd (postConfigRaw railwayEnv ''2026-01-01T00:00:00.000Z'' ''v2''
      (snd (postConfigRaw railwayEnv ''2026-01-01T00:00:00.000Z'' ''v1'' (bootWorld configuredFiles)))))
     ''/data/.openclaw/openclaw.json.bak-2026-01-01T00-00-00-000Z'' = Some ''v1'' \<and>
   files (bootWorld configuredFiles) ''/data/.openclaw/openclaw.json'' = Some ''{}''"
proof -
  have p: "configPath railwayEnv w = ''/data/.openclaw/openclaw.json''" for w
    by (simp add: configPath_fixed railwayEnv_def pathJoin_def)
  have a: "files (bootWorld configuredFiles) (configPath railwayEnv (bootWorld configuredFiles)) = Some ''{}''"
    unfolding p by (simp add: bootWorld_def configuredFiles_def)
  have first: "snd (postConfigRaw railwayEnv ''2026-01-01T00:00:00.000Z'' ''v1'' (bootWorld configuredFiles)) =
      (bootWorld configuredFiles)\<lparr>files := configuredFiles
         (''/data/.openclaw/openclaw.json.bak-2026-01-01T00-00-00-000Z'' \<mapsto> ''{}'',
          ''/data/.openclaw/openclaw.json'' \<mapsto> ''v1'')\<rparr>"
    using postConfigRaw_existing [OF a, of "''v1''" "''2026-01-01T00:00:00.000Z''"]
    by (simp add: p backupPath_def sanitizeTimestamp_def bootWorld_def)
  show ?thesis
    unfolding first
    by (auto simp: postConfigRaw_def p Let_def backupPath_def sanitizeTimestamp_def
        bootWorld_def configuredFiles_def isConfigured_configPath)
qed

section \<open>Properties of the import\<close>

text \<open>
  An equation for \<open>splitOn\<close> that reads the rest of the string once, for evaluating
  paths.
\<close>

lemma splitOn_Cons_case:
  "splitOn sep (c # cs) =
     (if c = sep then [] # splitOn sep cs
      else (case splitOn sep cs of s # ss \<Rightarrow> (c # s) # ss | [] \<Rightarrow> [[c]]))"
  using splitOn_nonempty [of sep cs] by (cases "splitOn sep cs") auto

lemmas path_eval = pathResolve_def startsWith_def joinSegments_def splitOn_Cons_case


lemma stopGateway_keeps: "files (stopGateway w) = files w \<and> spawned (stopGateway w) = spawned w"
  by (simp add: stopGateway_def split: option.splits)

lemma extractEntry_changes:
  "extractEntry cwd flt fs entry = Inr fs' \<Longrightarrow> fs' k \<noteq> fs k \<Longrightarrow>
   flt (entryPath entry) \<and> k = pathResolve cwd (entryPath entry) \<and> k \<noteq> pathResolve cwd []"
  by (auto simp: extractEntry_def Let_def split: if_splits)

lemma tarExtract_changes_only_passed:
  "leftOnDisk (tarExtract cwd flt entries fs) k \<noteq> fs k \<Longrightarrow>
   \<exists>entry\<in>set entries. flt (entryPath entry) \<and> k = pathResolve cwd (entryPath entry) \<and>
      k \<noteq> pathResolve cwd []"
proof (induction entries arbitrary: fs)
  case Nil
  then show ?case by (simp add: leftOnDisk_def)
next
  case (Cons a entries)
  show ?case
  proof (cases "extractEntry cwd flt fs a")
    case (Inl err)
    then show ?thesis using Cons.prems by (simp add: leftOnDisk_def)
  next
    case (Inr fs')
    show ?thesis
    proof (cases "fs' k = fs k")
      case True
      then have "leftOnDisk (tarExtract cwd flt entries fs') k \<noteq> fs' k"
        using Cons.prems Inr by simp
      then show ?thesis using Cons.IH [of fs'] by auto
    next
      case False
      then show ?thesis using extractEntry_changes [OF Inr] by auto
    qed
  qed
qed

lemma tarExtract_skips_refused:
  "tarExtract cwd flt (filter (\<lambda>entry. flt (entryPath entry)) entries) fs = tarExtract cwd flt entries fs"
proof (induction entries arbitrary: fs)
  case Nil
  then show ?case by simp
next
  case (Cons a entries)
  show ?case
  proof (cases "flt (entryPath a)")
    case True
    then show ?thesis using Cons.IH by (simp split: sum.splits)
  next
    case False
    then have "extractEntry cwd flt fs a = Inr fs" by (simp add: extractEntry_def)
    then show ?thesis using False Cons.IH by simp
  qed
qed

lemma splitOn_append_sep: "splitOn c (a @ c # b) = splitOn c a @ splitOn c b"
proof (induction a)
  case Nil
  then show ?case by simp
next
  case (Cons x xs)
  have ne: "splitOn c xs \<noteq> []" by (rule splitOn_nonempty)
  show ?case using Cons ne by (cases "splitOn c xs") auto
qed

lemma normSegments_no_parent:
  "''..'' \<notin> set segs \<Longrightarrow>
   normSegments acc segs = rev acc @ filter (\<lambda>s. s \<noteq> [] \<and> s \<noteq> ''.'') segs"
  by (induction acc segs rule: normSegments.induct) auto

lemma joinSegments_Cons: "joinSegments (s # ss) = CHR ''/'' # s @ joinSegments ss"
  by (simp add: joinSegments_def)

lemma safe_target_inside_dataRoot:
  assumes "looksSafeTarPath p"
  shows "pathResolve dataRoot p = pathResolve dataRoot [] \<or>
         startsWith (pathResolve dataRoot p) (dataRoot @ ''/'')"
proof -
  have rel: "\<not> startsWith p ''/''" and np: "''..'' \<notin> set (splitOn CHR ''/'' p)"
    using assms by (auto simp: looksSafeTarPath_def split: if_splits)
  have sp: "splitOn CHR ''/'' (dataRoot @ CHR ''/'' # p) = [[], ''data''] @ splitOn CHR ''/'' p"
    using splitOn_append_sep [of "CHR ''/''" dataRoot p] by (simp add: dataRoot_def)
  define rest where "rest = filter (\<lambda>s. s \<noteq> [] \<and> s \<noteq> ''.'') (splitOn CHR ''/'' p)"
  have ns: "normSegments [] (splitOn CHR ''/'' (dataRoot @ CHR ''/'' # p)) = ''data'' # rest"
    unfolding sp using normSegments_no_parent [OF np, of "[''data'']"] by (simp add: rest_def)
  have t: "pathResolve dataRoot p = ''/data'' @ joinSegments rest"
    using rel by (simp add: pathResolve_def Let_def ns joinSegments_Cons)
  have r: "pathResolve dataRoot [] = ''/data''"
    by (simp add: pathResolve_def startsWith_def joinSegments_def dataRoot_def)
  show ?thesis
  proof (cases rest)
    case Nil
    then show ?thesis using t r by (simp add: joinSegments_def)
  next
    case (Cons s ss)
    then show ?thesis using t by (simp add: joinSegments_Cons startsWith_def dataRoot_def)
  qed
qed

lemma postImport_files:
  "files (snd (postImport e decode now evs w)) k \<noteq> files w k \<Longrightarrow> k \<noteq> importTmpPath e now \<Longrightarrow>
   \<exists>body. fst (readBodyBuffer (250 * 1024 * 1024) evs) = BodyResolved body \<and>
     leftOnDisk (tarExtract dataRoot looksSafeTarPath (fst (decode body))
        ((files w)(importTmpPath e now \<mapsto> body))) k \<noteq> ((files w)(importTmpPath e now \<mapsto> body)) k"
  using stopGateway_keeps [of w]
  by (auto simp: postImport_def Let_def leftOnDisk_def
      split: if_splits body_result.splits sum.splits)




text \<open>
  A state directory that only looks as if it were below \<open>/data\<close> is refused, as
  \<^verbatim>\<open>path.resolve\<close> makes the source do.
\<close>

lemma isUnderDir_resolves: "\<not> isUnderDir railwayEnv ''/data/../etc'' dataRoot"
  by (simp add: isUnderDir_def path_eval railwayEnv_def dataRoot_def del: splitOn.simps(2))

text \<open>
  Claim C1, as the code has it. The import changes a file only strictly inside
  \<open>/data\<close>, at the resolved path of an entry whose path passes \<open>looksSafeTarPath\<close> (or at
  its own temporary file): an entry that fails the predicate is never written. Such
  an entry does not stop the import either: the import does to the disk, and
  replies, exactly what it would for the same archive without the entries that fail
  the predicate.
\<close>

theorem postImport_skips_unsafe_entries:
  "(files (snd (postImport e decode now evs w)) k \<noteq> files w k \<longrightarrow>
      k = importTmpPath e now \<or>
      (startsWith k (dataRoot @ ''/'') \<and>
       (\<exists>body entry. fst (readBodyBuffer (250 * 1024 * 1024) evs) = BodyResolved body \<and>
          entry \<in> set (fst (decode body)) \<and> looksSafeTarPath (entryPath entry) \<and>
          k = pathResolve dataRoot (entryPath entry)))) \<and>
   postImport e (withoutRefused decode) now evs w = postImport e decode now evs w"
proof (intro conjI impI)
  assume ch: "files (snd (postImport e decode now evs w)) k \<noteq> files w k"
  show "k = importTmpPath e now \<or>
      (startsWith k (dataRoot @ ''/'') \<and>
       (\<exists>body entry. fst (readBodyBuffer (250 * 1024 * 1024) evs) = BodyResolved body \<and>
          entry \<in> set (fst (decode body)) \<and> looksSafeTarPath (entryPath entry) \<and>
          k = pathResolve dataRoot (entryPath entry)))"
  proof (cases "k = importTmpPath e now")
    case True
    then show ?thesis by simp
  next
    case False
    obtain body where b: "fst (readBodyBuffer (250 * 1024 * 1024) evs) = BodyResolved body"
      and ex: "leftOnDisk (tarExtract dataRoot looksSafeTarPath (fst (decode body))
        ((files w)(importTmpPath e now \<mapsto> body))) k \<noteq> ((files w)(importTmpPath e now \<mapsto> body)) k"
      using postImport_files [OF ch False] by blast
    obtain entry where en: "entry \<in> set (fst (decode body))" "looksSafeTarPath (entryPath entry)"
      "k = pathResolve dataRoot (entryPath entry)" "k \<noteq> pathResolve dataRoot []"
      using tarExtract_changes_only_passed [OF ex] by blast
    have "startsWith k (dataRoot @ ''/'')"
      using safe_target_inside_dataRoot [OF en(2)] en(3,4) by simp
    then show ?thesis using b en by blast
  qed
next
  have a: "tarExtract dataRoot looksSafeTarPath (fst (withoutRefused decode buf)) fs =
      tarExtract dataRoot looksSafeTarPath (fst (decode buf)) fs" for buf fs
    by (simp add: withoutRefused_def tarExtract_skips_refused)
  have b: "snd (withoutRefused decode buf) = snd (decode buf)" for buf
    by (simp add: withoutRefused_def)
  show "postImport e (withoutRefused decode) now evs w = postImport e decode now evs w"
    unfolding postImport_def a b ..
qed

theorem postImport_skips_unsafe_entries_witness:
  "pathResolve dataRoot ''../../etc/passwd'' = ''/etc/passwd'' \<and>
   files (snd (postImport railwayEnv mixedArchive 1762000000000 [Data ''archive'', End]
      (bootWorld configuredFiles))) ''/etc/passwd'' = None \<and>
   postImport railwayEnv (withoutRefused mixedArchive) 1762000000000 [Data ''archive'', End]
      (bootWorld configuredFiles) =
   postImport railwayEnv mixedArchive 1762000000000 [Data ''archive'', End] (bootWorld configuredFiles)"
proof -
  let ?p = "postImport railwayEnv mixedArchive 1762000000000 [Data ''archive'', End]
      (bootWorld configuredFiles)"
  note th = postImport_skips_unsafe_entries [of railwayEnv mixedArchive 1762000000000
        "[Data ''archive'', End]" "bootWorld configuredFiles" "''/etc/passwd''"]
  have r: "pathResolve dataRoot ''../../etc/passwd'' = ''/etc/passwd''"
    by (simp add: path_eval dataRoot_def del: splitOn.simps(2))
  have tmp: "''/etc/passwd'' \<noteq> importTmpPath railwayEnv 1762000000000"
    by (simp add: importTmpPath_def pathJoin_def railwayEnv_def)
  have out: "\<not> startsWith ''/etc/passwd'' (dataRoot @ ''/'')"
    by (simp add: startsWith_def dataRoot_def)
  have none: "files (bootWorld configuredFiles) ''/etc/passwd'' = None"
    by (simp add: bootWorld_def configuredFiles_def)
  have same: "files (snd ?p) ''/etc/passwd'' = files (bootWorld configuredFiles) ''/etc/passwd''"
    using th tmp out by blast
  have n: "files (snd ?p) ''/etc/passwd'' = None"
    using same none by (rule trans)
  have eq: "postImport railwayEnv (withoutRefused mixedArchive) 1762000000000 [Data ''archive'', End]
      (bootWorld configuredFiles) = ?p"
    using th by blast
  show ?thesis
    using r n eq by blast
qed

text \<open>
  Claim C1 as stated fails: an archive with one safe entry and the entry
  \<open>../../etc/passwd\<close> is imported with the reply \<open>OK\<close>, and the safe entry has been
  written below \<open>/data\<close>, where no such file was before.
\<close>

theorem postImport_unsafe_entry_does_not_abort:
  "\<not> looksSafeTarPath ''../../etc/passwd'' \<and>
   fst (postImport railwayEnv mixedArchive 1762000000000 [Data ''archive'', End]
      (bootWorld configuredFiles)) = RestartThenReply (Reply 200 importedText) \<and>
   files (snd (postImport railwayEnv mixedArchive 1762000000000 [Data ''archive'', End]
      (bootWorld configuredFiles))) ''/data/ok.txt'' = Some ''x'' \<and>
   files (bootWorld configuredFiles) ''/data/ok.txt'' = None"
proof -
  let ?tmp = "importTmpPath railwayEnv 1762000000000"
  let ?fs = "configuredFiles(?tmp \<mapsto> ''archive'')"
  have unsafe: "\<not> looksSafeTarPath ''../../etc/passwd''"
    by (simp add: looksSafeTarPath_def startsWith_def driveLetterRegex_def backslash_def
        isAsciiLetter_def)
  have safe: "looksSafeTarPath ''ok.txt''"
    by (simp add: looksSafeTarPath_def startsWith_def driveLetterRegex_def backslash_def)
  have tmpne: "?tmp \<noteq> ''/data/.openclaw/openclaw.json''" "?tmp \<noteq> ''/data/ok.txt''"
    "?tmp \<noteq> ''/data''" "\<not> startsWith ?tmp ''/data/ok.txt/''"
    by (simp_all add: importTmpPath_def pathJoin_def railwayEnv_def startsWith_def)
  have t: "pathResolve dataRoot ''ok.txt'' = ''/data/ok.txt''" "pathResolve dataRoot [] = ''/data''"
    by (simp_all add: path_eval dataRoot_def del: splitOn.simps(2))
  have e1: "extractEntry dataRoot looksSafeTarPath ?fs \<lparr>entryPath = ''ok.txt'', payload = ''x''\<rparr> =
      Inr (?fs(''/data/ok.txt'' \<mapsto> ''x''))"
    using safe tmpne
    by (simp add: extractEntry_def Let_def t properAncestors_def isDirectoryIn_def
        configuredFiles_def startsWith_def splitOn_Cons_case del: splitOn.simps(2))
  have e2: "extractEntry dataRoot looksSafeTarPath fs \<lparr>entryPath = ''../../etc/passwd'', payload = ''y''\<rparr> =
      Inr fs" for fs
    using unsafe by (simp add: extractEntry_def)
  have ex: "tarExtract dataRoot looksSafeTarPath (fst (mixedArchive ''archive'')) ?fs =
      Inr (?fs(''/data/ok.txt'' \<mapsto> ''x''))"
    by (simp add: mixedArchive_def e1 e2)
  have u: "isUnderDir railwayEnv (STATE_DIR railwayEnv) dataRoot"
    "isUnderDir railwayEnv (WORKSPACE_DIR railwayEnv) dataRoot"
    by (simp_all add: isUnderDir_def path_eval railwayEnv_def dataRoot_def del: splitOn.simps(2))
  have sg: "stopGateway (bootWorld configuredFiles) = bootWorld configuredFiles"
    by (simp add: stopGateway_def bootWorld_def)
  have fb: "files (bootWorld configuredFiles) = configuredFiles"
    by (simp add: bootWorld_def)
  have dec: "snd (mixedArchive ''archive'')"
    by (simp add: mixedArchive_def)
  have cp: "configPath railwayEnv v = ''/data/.openclaw/openclaw.json''" for v
    by (simp add: configPath_fixed railwayEnv_def pathJoin_def)
  have run: "postImport railwayEnv mixedArchive 1762000000000 [Data ''archive'', End]
      (bootWorld configuredFiles) =
     (RestartThenReply (Reply 200 importedText),
      (bootWorld configuredFiles)\<lparr>files := (?fs(''/data/ok.txt'' \<mapsto> ''x''))(?tmp := None)\<rparr>)"
    using tmpne
    by (simp add: postImport_def Let_def u readBodyBuffer_def sg fb ex dec isConfigured_configPath cp)
      (simp add: configuredFiles_def)
  show ?thesis
    unfolding run using unsafe tmpne
    by (simp add: bootWorld_def configuredFiles_def)
qed

text \<open>
  An archive that holds a file \<open>a\<close> and then a file \<open>a/b\<close> cannot be unpacked: the
  import replies with status 500, and \<open>a/b\<close> is not written.
\<close>

lemma postImport_file_then_directory_fails:
  "fst (postImport railwayEnv clashingArchive 1762000000000 [Data ''archive'', End]
      (bootWorld configuredFiles)) = Replied (Reply 500 ''Error: EEXIST'') \<and>
   files (snd (postImport railwayEnv clashingArchive 1762000000000 [Data ''archive'', End]
      (bootWorld configuredFiles))) ''/data/a/b'' = None"
proof -
  let ?tmp = "importTmpPath railwayEnv 1762000000000"
  let ?fs = "configuredFiles(?tmp \<mapsto> ''archive'')"
  have safe: "looksSafeTarPath ''a''" "looksSafeTarPath ''a/b''"
    by (simp_all add: looksSafeTarPath_def startsWith_def driveLetterRegex_def backslash_def)
  have tmpne: "?tmp \<noteq> ''/data''" "?tmp \<noteq> ''/data/a''" "?tmp \<noteq> ''/data/a/b''"
    "\<not> startsWith ?tmp ''/data/a/''"
    by (simp_all add: importTmpPath_def pathJoin_def railwayEnv_def startsWith_def)
  have t: "pathResolve dataRoot ''a'' = ''/data/a''" "pathResolve dataRoot ''a/b'' = ''/data/a/b''"
    "pathResolve dataRoot [] = ''/data''"
    by (simp_all add: path_eval dataRoot_def del: splitOn.simps(2))
  have e1: "extractEntry dataRoot looksSafeTarPath ?fs \<lparr>entryPath = ''a'', payload = ''x''\<rparr> =
      Inr (?fs(''/data/a'' \<mapsto> ''x''))"
    using safe tmpne
    by (simp add: extractEntry_def Let_def t properAncestors_def isDirectoryIn_def
        configuredFiles_def startsWith_def splitOn_Cons_case del: splitOn.simps(2))
  have e2: "extractEntry dataRoot looksSafeTarPath (?fs(''/data/a'' \<mapsto> ''x''))
      \<lparr>entryPath = ''a/b'', payload = ''y''\<rparr> = Inl ''EEXIST''"
    using safe tmpne
    by (simp add: extractEntry_def Let_def t properAncestors_def splitOn_Cons_case
        del: splitOn.simps(2))
  have ex: "tarExtract dataRoot looksSafeTarPath (fst (clashingArchive ''archive'')) ?fs =
      Inl (''EEXIST'', ?fs(''/data/a'' \<mapsto> ''x''))"
    by (simp add: clashingArchive_def e1 e2)
  have u: "isUnderDir railwayEnv (STATE_DIR railwayEnv) dataRoot"
    "isUnderDir railwayEnv (WORKSPACE_DIR railwayEnv) dataRoot"
    by (simp_all add: isUnderDir_def path_eval railwayEnv_def dataRoot_def del: splitOn.simps(2))
  have sg: "stopGateway (bootWorld configuredFiles) = bootWorld configuredFiles"
    by (simp add: stopGateway_def bootWorld_def)
  have fb: "files (bootWorld configuredFiles) = configuredFiles"
    by (simp add: bootWorld_def)
  have run: "postImport railwayEnv clashingArchive 1762000000000 [Data ''archive'', End]
      (bootWorld configuredFiles) =
     (Replied (Reply 500 ''Error: EEXIST''),
      (bootWorld configuredFiles)\<lparr>files := ?fs(''/data/a'' \<mapsto> ''x'')\<rparr>)"
    by (simp add: postImport_def Let_def u readBodyBuffer_def sg fb ex)
  show ?thesis
    unfolding run using tmpne by (simp add: configuredFiles_def)
qed

section \<open>Properties of the debug console\<close>

lemma dropWhile_self: "xs = [] \<or> \<not> P (hd xs) \<Longrightarrow> dropWhile P xs = xs"
  by (cases xs) auto

lemma dropWhile_head: "dropWhile P xs = [] \<or> \<not> P (hd (dropWhile P xs))"
  using hd_dropWhile [of P xs] by blast

lemma hd_rev_dropWhile_rev:
  "xs = [] \<or> \<not> P (hd xs) \<Longrightarrow>
   rev (dropWhile P (rev xs)) = [] \<or> \<not> P (hd (rev (dropWhile P (rev xs))))"
proof (induction xs rule: rev_induct)
  case Nil
  then show ?case by simp
next
  case (snoc x xs)
  show ?case
  proof (cases "P x")
    case True
    then have "xs = [] \<or> \<not> P (hd xs)" using snoc.prems by (cases xs) auto
    then show ?thesis using snoc.IH True by simp
  next
    case False
    then show ?thesis using snoc.prems by simp
  qed
qed

lemma trim_idem: "trim (trim s) = trim s"
proof -
  let ?P = isJsWhitespace
  let ?t = "dropWhile ?P s"
  let ?r = "rev (dropWhile ?P (rev ?t))"
  have "?r = [] \<or> \<not> ?P (hd ?r)"
    using hd_rev_dropWhile_rev [of ?t ?P] dropWhile_head [of ?P s] by blast
  then have a: "dropWhile ?P ?r = ?r" by (rule dropWhile_self)
  show ?thesis
    unfolding trim_def by (simp add: a dropWhile_idem)
qed

lemma allowed_iff:
  "c \<in> set ALLOWED_CONSOLE_COMMANDS \<longleftrightarrow>
     c = ''gateway.restart'' \<or> c = ''gateway.stop'' \<or> c = ''gateway.start'' \<or>
     c = ''openclaw.version'' \<or> c = ''openclaw.status'' \<or> c = ''openclaw.health'' \<or>
     c = ''openclaw.doctor'' \<or> c = ''openclaw.logs.tail'' \<or> c = ''openclaw.config.get'' \<or>
     c = ''openclaw.devices.list'' \<or> c = ''openclaw.devices.approve'' \<or>
     c = ''openclaw.plugins.list'' \<or> c = ''openclaw.plugins.enable''"
  by (simp add: ALLOWED_CONSOLE_COMMANDS_def)

lemma consoleRun_unknown:
  "trim cmd \<notin> set ALLOWED_CONSOLE_COMMANDS \<Longrightarrow>
   consoleRun e cmd arg = ConsoleReply (Reply 400 ''Command not allowed'')"
  by (simp add: consoleRun_def Let_def)

lemma consoleRun_approve:
  "trim cmd = ''openclaw.devices.approve'' \<Longrightarrow>
   consoleRun e cmd arg =
     (if trim arg = [] then ConsoleReply (Reply 400 ''Missing device request ID'')
      else if \<not> matchesIdRegex (trim arg) then ConsoleReply (Reply 400 ''Invalid device request ID'')
      else RunCmdThenReply (OPENCLAW_NODE e) (clawArgs e [''devices'', ''approve'', trim arg]))"
  by (simp add: consoleRun_def Let_def trim_idem allowed_iff)

lemma consoleRun_enable:
  "trim cmd = ''openclaw.plugins.enable'' \<Longrightarrow>
   consoleRun e cmd arg =
     (if trim arg = [] then ConsoleReply (Reply 400 ''Missing plugin name'')
      else if \<not> matchesIdRegex (trim arg) then ConsoleReply (Reply 400 ''Invalid plugin name'')
      else RunCmdThenReply (OPENCLAW_NODE e) (clawArgs e [''plugins'', ''enable'', trim arg]))"
  by (simp add: consoleRun_def Let_def trim_idem allowed_iff)

lemma consoleRun_config_get:
  "trim cmd = ''openclaw.config.get'' \<Longrightarrow>
   consoleRun e cmd arg =
     (if trim arg = [] then ConsoleReply (Reply 400 ''Missing config path'')
      else RunCmdThenReply (OPENCLAW_NODE e) (clawArgs e [''config'', ''get'', trim arg]))"
  by (simp add: consoleRun_def Let_def allowed_iff)

text \<open>
  Claim C6, as the code has it. A command that is not in the allow-list is answered
  with status 400 and no command is run. For \<open>openclaw.devices.approve\<close> and
  \<open>openclaw.plugins.enable\<close>, a parameter that, once trimmed, is empty or has a
  character other than a letter, a digit, a dash or an underscore is answered with
  status 400 and no command is run; a parameter that passes is handed to \<open>runCmd\<close> as
  one element of the argument vector.
\<close>

theorem consoleRun_rejects_unknown_and_invalid:
  "(trim cmd \<notin> set ALLOWED_CONSOLE_COMMANDS \<longrightarrow>
      consoleRun e cmd arg = ConsoleReply (Reply 400 ''Command not allowed'')) \<and>
   ((trim cmd = ''openclaw.devices.approve'' \<or> trim cmd = ''openclaw.plugins.enable'') \<and>
    \<not> matchesIdRegex (trim arg) \<longrightarrow>
      (\<exists>msg. consoleRun e cmd arg = ConsoleReply (Reply 400 msg)) \<and>
      \<not> callsRunCmd (consoleRun e cmd arg)) \<and>
   (trim cmd = ''openclaw.devices.approve'' \<and> matchesIdRegex (trim arg) \<longrightarrow>
      consoleRun e cmd arg =
        RunCmdThenReply (OPENCLAW_NODE e) [OPENCLAW_ENTRY e, ''devices'', ''approve'', trim arg]) \<and>
   (trim cmd = ''openclaw.plugins.enable'' \<and> matchesIdRegex (trim arg) \<longrightarrow>
      consoleRun e cmd arg =
        RunCmdThenReply (OPENCLAW_NODE e) [OPENCLAW_ENTRY e, ''plugins'', ''enable'', trim arg])"
proof (intro conjI impI)
  assume "trim cmd \<notin> set ALLOWED_CONSOLE_COMMANDS"
  then show "consoleRun e cmd arg = ConsoleReply (Reply 400 ''Command not allowed'')"
    by (rule consoleRun_unknown)
next
  assume h: "(trim cmd = ''openclaw.devices.approve'' \<or> trim cmd = ''openclaw.plugins.enable'') \<and>
    \<not> matchesIdRegex (trim arg)"
  then show "\<exists>msg. consoleRun e cmd arg = ConsoleReply (Reply 400 msg)"
    using consoleRun_approve [of cmd e arg] consoleRun_enable [of cmd e arg] by auto
next
  assume h: "(trim cmd = ''openclaw.devices.approve'' \<or> trim cmd = ''openclaw.plugins.enable'') \<and>
    \<not> matchesIdRegex (trim arg)"
  then show "\<not> callsRunCmd (consoleRun e cmd arg)"
    using consoleRun_approve [of cmd e arg] consoleRun_enable [of cmd e arg]
    by (auto split: if_splits)
next
  assume h: "trim cmd = ''openclaw.devices.approve'' \<and> matchesIdRegex (trim arg)"
  then have ne: "trim arg \<noteq> []" by (auto simp: matchesIdRegex_def)
  from h show "consoleRun e cmd arg =
        RunCmdThenReply (OPENCLAW_NODE e) [OPENCLAW_ENTRY e, ''devices'', ''approve'', trim arg]"
    using consoleRun_approve [of cmd e arg] ne by (simp add: clawArgs_def)
next
  assume h: "trim cmd = ''openclaw.plugins.enable'' \<and> matchesIdRegex (trim arg)"
  then have ne: "trim arg \<noteq> []" by (auto simp: matchesIdRegex_def)
  from h show "consoleRun e cmd arg =
        RunCmdThenReply (OPENCLAW_NODE e) [OPENCLAW_ENTRY e, ''plugins'', ''enable'', trim arg]"
    using consoleRun_enable [of cmd e arg] ne by (simp add: clawArgs_def)
qed

theorem consoleRun_rejects_unknown_and_invalid_witness:
  "consoleRun railwayEnv ''rm'' ''-rf'' = ConsoleReply (Reply 400 ''Command not allowed'') \<and>
   (\<exists>msg. consoleRun railwayEnv ''openclaw.plugins.enable'' ''a;b | c'' = ConsoleReply (Reply 400 msg)) \<and>
   consoleRun railwayEnv '' openclaw.devices.approve'' ''req_1-A '' =
      RunCmdThenReply ''node'' [''/openclaw/dist/entry.js'', ''devices'', ''approve'', ''req_1-A'']"
proof -
  have t: "trim ''rm'' = ''rm''" "trim ''openclaw.plugins.enable'' = ''openclaw.plugins.enable''"
    "trim ''a;b | c'' = ''a;b | c''" "trim '' openclaw.devices.approve'' = ''openclaw.devices.approve''"
    "trim ''req_1-A '' = ''req_1-A''"
    by (simp_all add: trim_def isJsWhitespace_def)
  have u: "''rm'' \<notin> set ALLOWED_CONSOLE_COMMANDS"
    by (simp add: ALLOWED_CONSOLE_COMMANDS_def)
  have bad: "\<not> matchesIdRegex ''a;b | c''"
    by (simp add: matchesIdRegex_def isAsciiLetter_def isAsciiDigit_def)
  have good: "matchesIdRegex ''req_1-A''"
    by (simp add: matchesIdRegex_def isAsciiLetter_def isAsciiDigit_def)
  have e: "OPENCLAW_NODE railwayEnv = ''node''" "OPENCLAW_ENTRY railwayEnv = ''/openclaw/dist/entry.js''"
    by (simp_all add: railwayEnv_def)
  have a: "consoleRun railwayEnv ''rm'' ''-rf'' = ConsoleReply (Reply 400 ''Command not allowed'')"
    using consoleRun_rejects_unknown_and_invalid [of "''rm''" railwayEnv "''-rf''"] u
    by (simp add: t)
  have b: "\<exists>msg. consoleRun railwayEnv ''openclaw.plugins.enable'' ''a;b | c'' = ConsoleReply (Reply 400 msg)"
    using consoleRun_rejects_unknown_and_invalid [of "''openclaw.plugins.enable''" railwayEnv "''a;b | c''"] bad
    by (simp add: t)
  have c: "consoleRun railwayEnv '' openclaw.devices.approve'' ''req_1-A '' =
      RunCmdThenReply ''node'' [''/openclaw/dist/entry.js'', ''devices'', ''approve'', ''req_1-A'']"
    using consoleRun_rejects_unknown_and_invalid [of "'' openclaw.devices.approve''" railwayEnv "''req_1-A ''"] good
    by (simp add: t e)
  show ?thesis using a b c by blast
qed

text \<open>
  Claim C6 as stated fails for \<open>openclaw.config.get\<close>: its parameter is only required
  to be non-empty, so a parameter with \<open>;\<close>, \<open>|\<close> and spaces is handed to \<open>runCmd\<close>.
  \<open>openclaw.logs.tail\<close> does not reject such a parameter either: it reads the leading
  integer and clamps it.
\<close>

theorem consoleRun_config_get_runs_any_parameter:
  "consoleRun railwayEnv ''openclaw.config.get'' ''a;b | c'' =
     RunCmdThenReply ''node'' [''/openclaw/dist/entry.js'', ''config'', ''get'', ''a;b | c''] \<and>
   consoleRun railwayEnv ''openclaw.logs.tail'' ''70;b | c'' =
     RunCmdThenReply ''node'' [''/openclaw/dist/entry.js'', ''logs'', ''--tail'', ''70'']"
proof -
  have t: "trim ''openclaw.config.get'' = ''openclaw.config.get''" "trim ''a;b | c'' = ''a;b | c''"
    "trim ''openclaw.logs.tail'' = ''openclaw.logs.tail''" "trim ''70;b | c'' = ''70;b | c''"
    by (simp_all add: trim_def isJsWhitespace_def)
  have n: "tailLines ''70;b | c'' = 70"
    by (simp add: tailLines_def parseInt10_def isJsWhitespace_def isAsciiDigit_def digitVal_def)
  have s: "showInt 70 = ''70''"
    by (simp add: showInt_def showNat.simps digitChar_def)
  have a: "consoleRun railwayEnv ''openclaw.config.get'' ''a;b | c'' =
     RunCmdThenReply ''node'' [''/openclaw/dist/entry.js'', ''config'', ''get'', ''a;b | c'']"
    using consoleRun_config_get [of "''openclaw.config.get''" railwayEnv "''a;b | c''"]
    by (simp add: t railwayEnv_def clawArgs_def)
  have b: "consoleRun railwayEnv ''openclaw.logs.tail'' ''70;b | c'' =
     RunCmdThenReply ''node'' [''/openclaw/dist/entry.js'', ''logs'', ''--tail'', ''70'']"
    by (simp add: consoleRun_def Let_def t allowed_iff n s railwayEnv_def clawArgs_def)
  show ?thesis using a b by simp
qed

end
